theory Spec2Isabelle
  imports Complex_Main "HOL-Library.AList"
begin

section \<open>JavaScript values\<close>

text \<open>
  The reconciliation engine of \<^verbatim>\<open>src/app/api/chat/route.ts\<close> works on
  \<^verbatim>\<open>Record<string, any>\<close>: the record parsed from the language model's reply can
  hold any JSON value in any field. The model therefore keeps the dynamic typing of the
  source.

  Numbers are IEEE doubles in the source. Here a finite number is an exact rational; NaN and
  the two infinities are kept, because the validator and the truthiness tests of the source
  tell them apart. Rounding error and overflow of double arithmetic are not modelled, and
  \<open>-0\<close> is identified with \<open>0\<close> (the source never divides by either).
\<close>

datatype jsnum = NaN | PInf | NInf | Fin rat

text \<open>
  An object is an association list in property order. An array carries its elements and the
  named properties that an assignment such as \<^verbatim>\<open>arr.earned = 5\<close> adds to it.
  A character of a \<^typ>\<open>string\<close> stands for one UTF-16 code unit.
\<close>

datatype jsval =
    JUndefined
  | JNull
  | JBool bool
  | JNum jsnum
  | JStr string
  | JArr "jsval list" "(string \<times> jsval) list"
  | JObj "(string \<times> jsval) list"

type_synonym jsobject = "(string \<times> jsval) list"

datatype jstype = TUndefined | TObject | TBoolean | TNumber | TString

fun typeof :: "jsval \<Rightarrow> jstype" where
  "typeof JUndefined = TUndefined"
| "typeof JNull = TObject"
| "typeof (JBool b) = TBoolean"
| "typeof (JNum n) = TNumber"
| "typeof (JStr s) = TString"
| "typeof (JArr xs ps) = TObject"
| "typeof (JObj ps) = TObject"

fun isArray :: "jsval \<Rightarrow> bool" where
  "isArray (JArr xs ps) = True"
| "isArray v = False"

text \<open>\<^verbatim>\<open>isNaN(value)\<close>, which the source calls on numbers only.\<close>

fun isNaN :: "jsval \<Rightarrow> bool" where
  "isNaN (JNum NaN) = True"
| "isNaN v = False"

text \<open>Truthiness: what \<^verbatim>\<open>if (v)\<close>, \<^verbatim>\<open>!v\<close>, \<^verbatim>\<open>&&\<close> and \<^verbatim>\<open>||\<close> test.\<close>

fun truthy :: "jsval \<Rightarrow> bool" where
  "truthy JUndefined = False"
| "truthy JNull = False"
| "truthy (JBool b) = b"
| "truthy (JNum n) = (n \<noteq> NaN \<and> n \<noteq> Fin 0)"
| "truthy (JStr s) = (s \<noteq> [])"
| "truthy (JArr xs ps) = True"
| "truthy (JObj ps) = True"

text \<open>
  \<^verbatim>\<open>obj[key]\<close> on a record: \<^verbatim>\<open>undefined\<close> for a key that is absent. None of the
  keys the source reads (\<^verbatim>\<open>customer_name\<close>, \<^verbatim>\<open>length\<close>, ...) is inherited from
  \<^verbatim>\<open>Object.prototype\<close>, so own properties decide.
\<close>

definition getField :: "jsobject \<Rightarrow> string \<Rightarrow> jsval" where
  "getField obj k = (case map_of obj k of None \<Rightarrow> JUndefined | Some v \<Rightarrow> v)"

text \<open>\<^verbatim>\<open>obj[key] = v\<close>: an existing key keeps its place, a new key goes last.\<close>

definition setField :: "jsobject \<Rightarrow> string \<Rightarrow> jsval \<Rightarrow> jsobject" where
  "setField obj k v = AList.update k v obj"

text \<open>
  \<^verbatim>\<open>v[key]\<close> and \<^verbatim>\<open>v.key\<close> on any value but \<^verbatim>\<open>null\<close> and \<^verbatim>\<open>undefined\<close>
  (there JavaScript throws; every read of the source is guarded against them, and the model
  repeats each guard). The source reads \<^verbatim>\<open>length\<close> and the three reward keys only, never
  an array index.
\<close>

fun js_get :: "jsval \<Rightarrow> string \<Rightarrow> jsval" where
  "js_get (JObj ps) k = getField ps k"
| "js_get (JArr xs ps) k =
     (if k = ''length'' then JNum (Fin (of_nat (length xs))) else getField ps k)"
| "js_get (JStr s) k =
     (if k = ''length'' then JNum (Fin (of_nat (length s))) else JUndefined)"
| "js_get v k = JUndefined"

text \<open>\<^verbatim>\<open>Object.keys(value).length\<close> for a value of type \<^verbatim>\<open>'object'\<close>.\<close>

fun Object_keys_length :: "jsval \<Rightarrow> nat" where
  "Object_keys_length (JObj ps) = length ps"
| "Object_keys_length (JArr xs ps) = length xs + length ps"
| "Object_keys_length v = 0"

fun array_length :: "jsval \<Rightarrow> nat" where
  "array_length (JArr xs ps) = length xs"
| "array_length v = 0"

text \<open>
  \<^verbatim>\<open>String.prototype.toLowerCase\<close>. Only the letters \<open>A\<close> to \<open>Z\<close> lower to the
  ASCII letters of the sentinel strings below, so mapping these and keeping every other code
  unit decides membership in that list exactly as the source does.
\<close>

definition toLowerChar :: "char \<Rightarrow> char" where
  "toLowerChar c =
     (case map_of (zip ''ABCDEFGHIJKLMNOPQRSTUVWXYZ'' ''abcdefghijklmnopqrstuvwxyz'') c of
        None \<Rightarrow> c
      | Some d \<Rightarrow> d)"

definition toLowerCase :: "string \<Rightarrow> string" where
  "toLowerCase s = map toLowerChar s"

section \<open>Arithmetic and coercions\<close>

fun num_neg :: "jsnum \<Rightarrow> jsnum" where
  "num_neg NaN = NaN"
| "num_neg PInf = NInf"
| "num_neg NInf = PInf"
| "num_neg (Fin a) = Fin (- a)"

fun num_add :: "jsnum \<Rightarrow> jsnum \<Rightarrow> jsnum" where
  "num_add (Fin a) (Fin b) = Fin (a + b)"
| "num_add NaN y = NaN"
| "num_add x NaN = NaN"
| "num_add PInf NInf = NaN"
| "num_add NInf PInf = NaN"
| "num_add PInf y = PInf"
| "num_add NInf y = NInf"
| "num_add x PInf = PInf"
| "num_add x NInf = NInf"

definition num_sub :: "jsnum \<Rightarrow> jsnum \<Rightarrow> jsnum" where
  "num_sub x y = num_add x (num_neg y)"

fun num_sgn :: "jsnum \<Rightarrow> int" where
  "num_sgn NaN = 0"
| "num_sgn PInf = 1"
| "num_sgn NInf = - 1"
| "num_sgn (Fin a) = (if a = 0 then 0 else if 0 < a then 1 else - 1)"

fun num_mul :: "jsnum \<Rightarrow> jsnum \<Rightarrow> jsnum" where
  "num_mul (Fin a) (Fin b) = Fin (a * b)"
| "num_mul NaN y = NaN"
| "num_mul x NaN = NaN"
| "num_mul x y =
     (let s = num_sgn x * num_sgn y in if s = 0 then NaN else if 0 < s then PInf else NInf)"

text \<open>Division; a zero divisor counts as \<open>+0\<close>.\<close>

fun num_div :: "jsnum \<Rightarrow> jsnum \<Rightarrow> jsnum" where
  "num_div (Fin a) (Fin b) =
     (if b = 0 then (if a = 0 then NaN else if 0 < a then PInf else NInf) else Fin (a / b))"
| "num_div NaN y = NaN"
| "num_div x NaN = NaN"
| "num_div (Fin a) y = Fin 0"
| "num_div x (Fin b) = (if 0 \<le> num_sgn x * (if b < 0 then - 1 else 1) then PInf else NInf)"
| "num_div x y = NaN"

text \<open>\<^verbatim>\<open>Math.round\<close>: the nearest integer, a tie going up.\<close>

fun Math_round :: "jsnum \<Rightarrow> jsnum" where
  "Math_round (Fin a) = Fin (of_int \<lfloor>a + 1 / 2\<rfloor>)"
| "Math_round x = x"

text \<open>\<^verbatim>\<open>x < y\<close> on numbers: false as soon as one side is NaN.\<close>

fun num_less :: "jsnum \<Rightarrow> jsnum \<Rightarrow> bool" where
  "num_less (Fin a) (Fin b) = (a < b)"
| "num_less NaN y = False"
| "num_less x NaN = False"
| "num_less x NInf = False"
| "num_less PInf y = False"
| "num_less x y = True"

datatype jserror = TypeError | Error string

text \<open>
  The coercions of ECMAScript that depend on the text of a string, on the printing of a
  number or on the \<^verbatim>\<open>valueOf\<close>/\<^verbatim>\<open>toString\<close> properties of an object are
  parameters of the model: every result below holds for any such runtime.
  \<open>OrdinaryToPrimitive\<close> throws a \<^verbatim>\<open>TypeError\<close> when neither property of the
  object is callable, which a parsed JSON object can bring about.
\<close>

record js_runtime =
  StringToNumber :: "string \<Rightarrow> jsnum"
  NumberToString :: "jsnum \<Rightarrow> string"
  OrdinaryToPrimitive :: "jsval \<Rightarrow> jserror + jsval"

fun isPrimitive :: "jsval \<Rightarrow> bool" where
  "isPrimitive (JArr xs ps) = False"
| "isPrimitive (JObj ps) = False"
| "isPrimitive v = True"

definition toPrimitive :: "js_runtime \<Rightarrow> jsval \<Rightarrow> jserror + jsval" where
  "toPrimitive rt v =
     (if isPrimitive v then Inr v
      else (case OrdinaryToPrimitive rt v of
              Inl e \<Rightarrow> Inl e
            | Inr p \<Rightarrow> if isPrimitive p then Inr p else Inl TypeError))"

text \<open>\<open>ToNumber\<close> and \<open>ToString\<close> on a primitive value.\<close>

fun primToNumber :: "js_runtime \<Rightarrow> jsval \<Rightarrow> jsnum" where
  "primToNumber rt JUndefined = NaN"
| "primToNumber rt JNull = Fin 0"
| "primToNumber rt (JBool b) = Fin (if b then 1 else 0)"
| "primToNumber rt (JNum n) = n"
| "primToNumber rt (JStr s) = StringToNumber rt s"
| "primToNumber rt v = NaN"

fun primToString :: "js_runtime \<Rightarrow> jsval \<Rightarrow> string" where
  "primToString rt JUndefined = ''undefined''"
| "primToString rt JNull = ''null''"
| "primToString rt (JBool b) = (if b then ''true'' else ''false'')"
| "primToString rt (JNum n) = NumberToString rt n"
| "primToString rt (JStr s) = s"
| "primToString rt v = []"

definition toNumber :: "js_runtime \<Rightarrow> jsval \<Rightarrow> jserror + jsnum" where
  "toNumber rt v =
     (case toPrimitive rt v of Inl e \<Rightarrow> Inl e | Inr p \<Rightarrow> Inr (primToNumber rt p))"

fun isString :: "jsval \<Rightarrow> bool" where
  "isString (JStr s) = True"
| "isString v = False"

text \<open>\<^verbatim>\<open>a - b\<close>\<close>

definition js_sub :: "js_runtime \<Rightarrow> jsval \<Rightarrow> jsval \<Rightarrow> jserror + jsval" where
  "js_sub rt a b =
     (case toNumber rt a of
        Inl e \<Rightarrow> Inl e
      | Inr x \<Rightarrow> (case toNumber rt b of Inl e \<Rightarrow> Inl e | Inr y \<Rightarrow> Inr (JNum (num_sub x y))))"

text \<open>\<^verbatim>\<open>a + b\<close>: concatenation as soon as one operand is a string.\<close>

definition js_add :: "js_runtime \<Rightarrow> jsval \<Rightarrow> jsval \<Rightarrow> jserror + jsval" where
  "js_add rt a b =
     (case toPrimitive rt a of
        Inl e \<Rightarrow> Inl e
      | Inr pa \<Rightarrow>
          (case toPrimitive rt b of
             Inl e \<Rightarrow> Inl e
           | Inr pb \<Rightarrow>
               if isString pa \<or> isString pb
               then Inr (JStr (primToString rt pa @ primToString rt pb))
               else Inr (JNum (num_add (primToNumber rt pa) (primToNumber rt pb)))))"

text \<open>Strings compare by code units.\<close>

fun str_less :: "string \<Rightarrow> string \<Rightarrow> bool" where
  "str_less [] [] = False"
| "str_less [] (d # t) = True"
| "str_less (c # s) [] = False"
| "str_less (c # s) (d # t) =
     ((of_char c :: nat) < of_char d \<or> (c = d \<and> str_less s t))"

text \<open>\<^verbatim>\<open>a > b\<close>\<close>

definition js_gt :: "js_runtime \<Rightarrow> jsval \<Rightarrow> jsval \<Rightarrow> jserror + bool" where
  "js_gt rt a b =
     (case toPrimitive rt a of
        Inl e \<Rightarrow> Inl e
      | Inr pa \<Rightarrow>
          (case toPrimitive rt b of
             Inl e \<Rightarrow> Inl e
           | Inr pb \<Rightarrow>
               (case (pa, pb) of
                  (JStr s, JStr t) \<Rightarrow> Inr (str_less t s)
                | _ \<Rightarrow> Inr (num_less (primToNumber rt pb) (primToNumber rt pa)))))"

text \<open>\<^verbatim>\<open>a || b\<close>, \<^verbatim>\<open>a ?? null\<close> and \<^verbatim>\<open>v?.key\<close>\<close>

definition js_or :: "jsval \<Rightarrow> jsval \<Rightarrow> jsval" where
  "js_or a b = (if truthy a then a else b)"

definition orNull :: "jsval \<Rightarrow> jsval" where
  "orNull a = (if a = JNull \<or> a = JUndefined then JNull else a)"

definition js_get_opt :: "jsval \<Rightarrow> string \<Rightarrow> jsval" where
  "js_get_opt v k = (if v = JNull \<or> v = JUndefined then JUndefined else js_get v k)"

text \<open>
  \<^verbatim>\<open>v[key] = x\<close>. The module is strict-mode code, so creating a property on a number,
  a boolean or a string throws, as it does on \<^verbatim>\<open>null\<close> and \<^verbatim>\<open>undefined\<close>.
\<close>

fun js_set :: "jsval \<Rightarrow> string \<Rightarrow> jsval \<Rightarrow> jserror + jsval" where
  "js_set (JObj ps) k x = Inr (JObj (setField ps k x))"
| "js_set (JArr xs ps) k x = Inr (JArr xs (setField ps k x))"
| "js_set v k x = Inl TypeError"

section \<open>The validator\<close>

definition sentinelStrings :: "string list" where
  "sentinelStrings = [''null'', ''na'', ''n/a'', '''', ''undefined'']"

definition isValidData :: "jsval \<Rightarrow> bool" where
  "isValidData v =
     (if v = JNull \<or> v = JUndefined then False
      else if typeof v = TNumber \<and> isNaN v then False
      else if typeof v = TNumber \<and> v = JNum (Fin 0) then True
      else if isArray v \<and> array_length v = 0 then False
      else if typeof v = TObject \<and> Object_keys_length v = 0 then False
      else if typeof v = TString \<and>
              (case v of JStr s \<Rightarrow> toLowerCase s \<in> set sentinelStrings | _ \<Rightarrow> False)
        then False
      else True)"

section \<open>The fallback record and finalization\<close>

definition createCompleteFallbackData :: jsobject where
  "createCompleteFallbackData =
     [(''customer_name'', JNull),
      (''statement_date'', JNull),
      (''payment_due_date'', JNull),
      (''total_amount_due'', JNull),
      (''minimum_amount_due'', JNull),
      (''credit_limit'', JNull),
      (''available_credit_limit'', JNull),
      (''card_number'', JNull),
      (''transactions'', JArr [] []),
      (''reward_points_summary'',
         JObj [(''opening_balance'', JNull), (''earned'', JNull), (''closing_balance'', JNull)]),
      (''bank_name'', JNull)]"

text \<open>\<^verbatim>\<open>field in data\<close>\<close>

definition hasField :: "jsobject \<Rightarrow> string \<Rightarrow> bool" where
  "hasField obj k = (map_of obj k \<noteq> None)"

text \<open>
  A loop that can throw: the body returns an error or the next state, and the first error
  ends the loop.
\<close>

fun foldE :: "('s \<Rightarrow> 'a \<Rightarrow> 'e + 's) \<Rightarrow> 's \<Rightarrow> 'a list \<Rightarrow> 'e + 's" where
  "foldE f s [] = Inr s"
| "foldE f s (x # xs) = (case f s x of Inl e \<Rightarrow> Inl e | Inr s' \<Rightarrow> foldE f s' xs)"

text \<open>The body of the loop \<^verbatim>\<open>for (const field in validatedData)\<close>.\<close>

definition validateField :: "jsobject \<Rightarrow> jsobject \<Rightarrow> string \<Rightarrow> jsobject" where
  "validateField data validatedData field =
     (if hasField data field \<and> isValidData (getField data field) then
        (if field = ''reward_points_summary'' \<and> typeof (getField data field) = TObject then
           setField validatedData ''reward_points_summary''
             (JObj [(''opening_balance'', orNull (js_get (getField data field) ''opening_balance'')),
                    (''earned'', orNull (js_get (getField data field) ''earned'')),
                    (''closing_balance'', orNull (js_get (getField data field) ''closing_balance''))])
         else setField validatedData field (getField data field))
      else validatedData)"

definition validateAll :: "jsobject \<Rightarrow> jsobject" where
  "validateAll data =
     foldl (validateField data) createCompleteFallbackData (map fst createCompleteFallbackData)"

text \<open>The three derivations, in the order of the source.\<close>

definition calcAvailableCredit :: "js_runtime \<Rightarrow> jsobject \<Rightarrow> jserror + jsobject" where
  "calcAvailableCredit rt validatedData =
     (if isValidData (getField validatedData ''credit_limit'') \<and>
         isValidData (getField validatedData ''total_amount_due'') \<and>
         \<not> isValidData (getField validatedData ''available_credit_limit'')
      then (case js_sub rt (getField validatedData ''credit_limit'')
                   (getField validatedData ''total_amount_due'') of
              Inl e \<Rightarrow> Inl e
            | Inr d \<Rightarrow> Inr (setField validatedData ''available_credit_limit'' d))
      else Inr validatedData)"

definition calcClosingBalance :: "js_runtime \<Rightarrow> jsobject \<Rightarrow> jserror + jsobject" where
  "calcClosingBalance rt validatedData =
     (let rewardSummary = getField validatedData ''reward_points_summary'' in
      if isValidData (js_get rewardSummary ''opening_balance'') \<and>
         isValidData (js_get rewardSummary ''earned'') \<and>
         \<not> isValidData (js_get rewardSummary ''closing_balance'')
      then (case js_add rt (js_get rewardSummary ''opening_balance'')
                   (js_get rewardSummary ''earned'') of
              Inl e \<Rightarrow> Inl e
            | Inr c \<Rightarrow>
                (case js_set rewardSummary ''closing_balance'' c of
                   Inl e \<Rightarrow> Inl e
                 | Inr rs \<Rightarrow> Inr (setField validatedData ''reward_points_summary'' rs)))
      else Inr validatedData)"

text \<open>\<^verbatim>\<open>Math.round(total * 0.05 * 100) / 100\<close>, with \<open>0.05\<close> taken as \<open>1/20\<close>.\<close>

definition fivePercent :: "jsnum \<Rightarrow> jsnum" where
  "fivePercent x = num_div (Math_round (num_mul (num_mul x (Fin (1 / 20))) (Fin 100))) (Fin 100)"

definition calcMinimumDue :: "js_runtime \<Rightarrow> jsobject \<Rightarrow> jserror + jsobject" where
  "calcMinimumDue rt validatedData =
     (if isValidData (getField validatedData ''total_amount_due'') \<and>
         \<not> isValidData (getField validatedData ''minimum_amount_due'')
      then (case toNumber rt (getField validatedData ''total_amount_due'') of
              Inl e \<Rightarrow> Inl e
            | Inr x \<Rightarrow> Inr (setField validatedData ''minimum_amount_due'' (JNum (fivePercent x))))
      else Inr validatedData)"

definition finalValidationAndCalculation :: "js_runtime \<Rightarrow> jsobject \<Rightarrow> jserror + jsobject" where
  "finalValidationAndCalculation rt data =
     (case calcAvailableCredit rt (validateAll data) of
        Inl e \<Rightarrow> Inl e
      | Inr v1 \<Rightarrow>
          (case calcClosingBalance rt v1 of
             Inl e \<Rightarrow> Inl e
           | Inr v2 \<Rightarrow> calcMinimumDue rt v2))"

section \<open>Merging the two extractions\<close>

definition highPriorityFields :: "string list" where
  "highPriorityFields = [''customer_name'', ''card_number'', ''bank_name'', ''transactions'']"

definition financialFields :: "string list" where
  "financialFields =
     [''total_amount_due'', ''minimum_amount_due'', ''credit_limit'', ''available_credit_limit'']"

definition dateFields :: "string list" where
  "dateFields = [''statement_date'', ''payment_due_date'']"

definition rewardFields :: "string list" where
  "rewardFields = [''opening_balance'', ''earned'', ''closing_balance'']"

text \<open>The body of the loop over \<^verbatim>\<open>highPriorityFields\<close>.\<close>

definition mergeHighPriority ::
  "js_runtime \<Rightarrow> jsobject \<Rightarrow> jsobject \<Rightarrow> string \<Rightarrow> jserror + jsobject" where
  "mergeHighPriority rt patternData mergedData field =
     (if truthy (getField patternData field) \<and> isValidData (getField patternData field) then
        (if field = ''transactions'' \<and> isArray (getField patternData field) then
           (case js_gt rt (js_get (getField patternData field) ''length'')
                   (js_or (js_get_opt (getField mergedData field) ''length'') (JNum (Fin 0))) of
              Inl e \<Rightarrow> Inl e
            | Inr longer \<Rightarrow>
                if longer then Inr (setField mergedData field (getField patternData field))
                else Inr mergedData)
         else if field \<noteq> ''transactions''
           then Inr (setField mergedData field (getField patternData field))
         else Inr mergedData)
      else Inr mergedData)"

text \<open>The body of the loops over \<^verbatim>\<open>financialFields\<close> and \<^verbatim>\<open>dateFields\<close>.\<close>

definition mergeFill :: "jsobject \<Rightarrow> jsobject \<Rightarrow> string \<Rightarrow> jsobject" where
  "mergeFill patternData mergedData field =
     (if truthy (getField patternData field) \<and> isValidData (getField patternData field) then
        (if \<not> truthy (getField mergedData field) \<or> \<not> isValidData (getField mergedData field)
         then setField mergedData field (getField patternData field)
         else mergedData)
      else mergedData)"

text \<open>The body of the loop over \<^verbatim>\<open>rewardFields\<close>.\<close>

definition mergeReward :: "jsobject \<Rightarrow> jsobject \<Rightarrow> string \<Rightarrow> jserror + jsobject" where
  "mergeReward patternData mergedData field =
     (let patternValue = js_get (getField patternData ''reward_points_summary'') field in
      if truthy patternValue \<and> isValidData patternValue then
        (if \<not> truthy (getField mergedData ''reward_points_summary'') \<or>
            \<not> truthy (js_get (getField mergedData ''reward_points_summary'') field) \<or>
            \<not> isValidData (js_get (getField mergedData ''reward_points_summary'') field)
         then
           (let mergedData1 =
                  (if \<not> truthy (getField mergedData ''reward_points_summary'')
                   then setField mergedData ''reward_points_summary'' (JObj [])
                   else mergedData)
            in case js_set (getField mergedData1 ''reward_points_summary'') field patternValue of
                 Inl e \<Rightarrow> Inl e
               | Inr rs \<Rightarrow> Inr (setField mergedData1 ''reward_points_summary'' rs))
         else Inr mergedData)
      else Inr mergedData)"

definition robustDataMerging ::
  "js_runtime \<Rightarrow> jsobject \<Rightarrow> jsobject \<Rightarrow> jserror + jsobject" where
  "robustDataMerging rt aiData patternData =
     (case foldE (mergeHighPriority rt patternData) aiData highPriorityFields of
        Inl e \<Rightarrow> Inl e
      | Inr m1 \<Rightarrow>
          (let m2 = foldl (mergeFill patternData) m1 financialFields;
               m3 = foldl (mergeFill patternData) m2 dateFields
           in if truthy (getField patternData ''reward_points_summary'')
              then foldE (mergeReward patternData) m3 rewardFields
              else Inr m3))"

text \<open>
  The two steps that \<^verbatim>\<open>extract10DataPointsWithGemini\<close> runs on the parsed reply:
  \<^verbatim>\<open>finalValidationAndCalculation(robustDataMerging(extractedData, patternMatchedData))\<close>.
\<close>

definition reconcile :: "js_runtime \<Rightarrow> jsobject \<Rightarrow> jsobject \<Rightarrow> jserror + jsobject" where
  "reconcile rt aiData patternData =
     (case robustDataMerging rt aiData patternData of
        Inl e \<Rightarrow> Inl e
      | Inr mergedData \<Rightarrow> finalValidationAndCalculation rt mergedData)"

section \<open>The extraction pipeline\<close>



text \<open>
  \<^verbatim>\<open>extractJsonFromResponse\<close>. The two regular expressions, the four clean-up
  replacements and \<^verbatim>\<open>JSON.parse\<close> are parameters. Both expressions match a text that
  starts with a brace, for which \<^verbatim>\<open>JSON.parse\<close> returns an object or throws; a throw
  (\<open>None\<close>) is caught and leads to the fallback record.
\<close>

record json_recovery =
  codeBlockMatch :: "string \<Rightarrow> string option"
  jsonMatch :: "string \<Rightarrow> string option"
  cleanJson :: "string \<Rightarrow> string"
  JSON_parse :: "string \<Rightarrow> jsobject option"













section \<open>Pattern extraction of the customer and bank name\<close>

text \<open>
  The regular expressions of \<^verbatim>\<open>extractCustomerInfoFromText\<close> are run by a backtracking
  matcher. A state is the text consumed so far (reversed), the text that remains, and the
  captures. \<open>ms re s\<close> lists the states in which a match of \<open>re\<close> from \<open>s\<close> can
  end, in the order in which backtracking tries them, so that the head of the list is the
  match that \<^verbatim>\<open>exec\<close> reports. All expressions of the function carry the flag
  \<^verbatim>\<open>i\<close>: a literal matches either case of its letter. A repetition gives up an
  iteration that consumes nothing, as ECMAScript does.
\<close>

type_synonym captures = "(nat \<times> string) list"
type_synonym mstate = "string \<times> string \<times> captures"

datatype regex =
    Lit char
  | Class "char \<Rightarrow> bool"
  | Eps
  | Seq regex regex
  | Alt regex regex
  | Star regex
  | LazyStar regex
  | Group nat regex
  | NotAhead regex
  | Bol
  | Eoi

text \<open>
  \<^verbatim>\<open>.\<close> matches anything but a line terminator; \<^verbatim>\<open>\s\<close> and \<^verbatim>\<open>trim\<close> take
  the white space and line terminators of ECMAScript, here those below U+0100.
\<close>

definition isLineTerminator :: "char \<Rightarrow> bool" where
  "isLineTerminator c = (c = CHR 0x0A \<or> c = CHR 0x0D)"

definition isWhiteSpace :: "char \<Rightarrow> bool" where
  "isWhiteSpace c =
     (c = CHR '' '' \<or> c = CHR 0x09 \<or> c = CHR 0x0A \<or> c = CHR 0x0B \<or> c = CHR 0x0C \<or>
      c = CHR 0x0D \<or> c = CHR 0xA0)"

fun remaining :: "mstate \<Rightarrow> string" where
  "remaining (b, r, cs) = r"

fun ms :: "regex \<Rightarrow> mstate \<Rightarrow> mstate list" where
  "ms (Lit c) (b, r, cs) =
     (case r of
        [] \<Rightarrow> []
      | x # xs \<Rightarrow> if toLowerChar x = toLowerChar c then [(x # b, xs, cs)] else [])"
| "ms (Class P) (b, r, cs) =
     (case r of [] \<Rightarrow> [] | x # xs \<Rightarrow> if P x then [(x # b, xs, cs)] else [])"
| "ms Eps s = [s]"
| "ms (Seq p q) s = concat (map (ms q) (ms p s))"
| "ms (Alt p q) s = ms p s @ ms q s"
| "ms (Star p) s =
     concat (map (ms (Star p))
               (filter (\<lambda>s'. length (remaining s') < length (remaining s)) (ms p s))) @ [s]"
| "ms (LazyStar p) s =
     s # concat (map (ms (LazyStar p))
                  (filter (\<lambda>s'. length (remaining s') < length (remaining s)) (ms p s)))"
| "ms (Group n p) (b, r, cs) =
     map (\<lambda>(b', r', cs'). (b', r', AList.update n (take (length r - length r') r) cs'))
       (ms p (b, r, cs))"
| "ms (NotAhead p) s = (if ms p s = [] then [s] else [])"
| "ms Bol (b, r, cs) = (if b = [] \<or> isLineTerminator (hd b) then [(b, r, cs)] else [])"
| "ms Eoi (b, r, cs) = (if r = [] then [(b, r, cs)] else [])"

text \<open>exec: the first start index, from the left, at which the pattern matches.\<close>

fun execFrom :: "regex \<Rightarrow> string \<Rightarrow> string \<Rightarrow> (nat \<times> mstate) option" where
  "execFrom re b r =
     (case ms re (b, r, []) of
        s # ss \<Rightarrow> Some (length b, s)
      | [] \<Rightarrow> (case r of [] \<Rightarrow> None | x # xs \<Rightarrow> execFrom re (x # b) xs))"

definition exec :: "regex \<Rightarrow> string \<Rightarrow> (nat \<times> mstate) option" where
  "exec re text = execFrom re [] text"

definition literal :: "string \<Rightarrow> regex" where
  "literal s = foldr (\<lambda>c re. Seq (Lit c) re) s Eps"

definition Plus :: "regex \<Rightarrow> regex" where
  "Plus p = Seq p (Star p)"

definition Opt :: "regex \<Rightarrow> regex" where
  "Opt p = Alt p Eps"

definition isLetter :: "char \<Rightarrow> bool" where
  "isLetter c = (c \<in> set ''ABCDEFGHIJKLMNOPQRSTUVWXYZabcdefghijklmnopqrstuvwxyz'')"

definition isNameChar :: "char \<Rightarrow> bool" where
  "isNameChar c = (isLetter c \<or> isWhiteSpace c \<or> c = CHR ''.'')"

text \<open>
  \<^verbatim>\<open>\s*[:]?\s*([A-Za-z\s\.]+(?!\s*email))(?:\n|$)\<close>, the part that the three labelled
  name patterns share.
\<close>

definition nameTail :: regex where
  "nameTail =
     Seq (Star (Class isWhiteSpace))
      (Seq (Opt (Class (\<lambda>c. c = CHR '':'')))
        (Seq (Star (Class isWhiteSpace))
          (Seq (Group 1
                 (Seq (Plus (Class isNameChar))
                      (NotAhead (Seq (Star (Class isWhiteSpace)) (literal ''email'')))))
               (Alt (Lit (CHR 0x0A)) Eoi))))"

definition namePatterns :: "regex list" where
  "namePatterns =
     [Seq (literal ''Customer Name'') nameTail,
      Seq (literal ''Cardholder'') nameTail,
      Seq (literal ''Name'') nameTail,
      Seq Bol
        (Seq (Group 1
               (Seq (Plus (Class isNameChar))
                    (NotAhead (Seq (Star (Class isWhiteSpace)) (literal ''email'')))))
             (Seq (Lit (CHR 0x0A))
                  (Seq (LazyStar (Class (\<lambda>c. \<not> isLineTerminator c)))
                       (literal ''Credit Card''))))]"

definition trim :: "string \<Rightarrow> string" where
  "trim s = rev (dropWhile isWhiteSpace (rev (dropWhile isWhiteSpace s)))"

text \<open>
  \<^verbatim>\<open>name.replace(/\s*email\s*$/i, '')\<close>: the first match, from the left, is removed.
\<close>

definition trailingEmail :: regex where
  "trailingEmail =
     Seq (Star (Class isWhiteSpace))
       (Seq (literal ''email'') (Seq (Star (Class isWhiteSpace)) Eoi))"

definition removeFirst :: "regex \<Rightarrow> string \<Rightarrow> string" where
  "removeFirst re s =
     (case exec re s of None \<Rightarrow> s | Some (i, st) \<Rightarrow> take i s @ remaining st)"

text \<open>
  The two loops over the patterns: the first pattern that matches with a non-empty first
  group decides, and \<^verbatim>\<open>null\<close> remains when none does.
\<close>

fun firstName :: "regex list \<Rightarrow> string \<Rightarrow> jsval" where
  "firstName [] text = JNull"
| "firstName (pattern # patterns) text =
     (case exec pattern text of
        None \<Rightarrow> firstName patterns text
      | Some (i, b, r, cs) \<Rightarrow>
          (case map_of cs 1 of
             None \<Rightarrow> firstName patterns text
           | Some g \<Rightarrow>
               if g = [] then firstName patterns text
               else JStr (trim (removeFirst trailingEmail (trim g)))))"

definition bankPatterns :: "regex list" where
  "bankPatterns =
     [Group 1
        (Alt (literal ''HDFC Bank'')
          (Alt (literal ''ICICI Bank'')
            (Alt (literal ''Axis Bank'')
              (Alt (literal ''IDFC FIRST Bank'')
                (Alt (literal ''RBL Bank'')
                  (Alt (literal ''SBI Card'')
                    (Alt (literal ''Kotak Bank'') (literal ''Standard Chartered'')))))))),
      Group 1 (Seq (Plus (Class isLetter)) (literal '' Bank Limited'')),
      Group 1 (Seq (Plus (Class isLetter)) (literal '' Card Services''))]"

fun firstBank :: "regex list \<Rightarrow> string \<Rightarrow> jsval" where
  "firstBank [] text = JNull"
| "firstBank (pattern # patterns) text =
     (case exec pattern text of
        None \<Rightarrow> firstBank patterns text
      | Some (i, b, r, cs) \<Rightarrow>
          (case map_of cs 1 of
             None \<Rightarrow> firstBank patterns text
           | Some g \<Rightarrow> if g = [] then firstBank patterns text else JStr (trim g)))"

definition extractCustomerInfoFromText :: "string \<Rightarrow> jsobject" where
  "extractCustomerInfoFromText text =
     [(''customer_name'', firstName namePatterns text),
      (''bank_name'', firstBank bankPatterns text)]"

section \<open>The field-level view of finalization and merge\<close>

text \<open>
  Finalization and merge read and write a record field by field. The functions of this
  section give the value of one field after each of them; the lemmas below prove that the
  loops of the source compute exactly these values.
\<close>

definition validatedValue :: "jsobject \<Rightarrow> string \<Rightarrow> jsval \<Rightarrow> jsval" where
  "validatedValue data field old =
     (if isValidData (getField data field) then
        (if field = ''reward_points_summary'' \<and> typeof (getField data field) = TObject then
           JObj [(''opening_balance'', orNull (js_get (getField data field) ''opening_balance'')),
                 (''earned'', orNull (js_get (getField data field) ''earned'')),
                 (''closing_balance'', orNull (js_get (getField data field) ''closing_balance''))]
         else getField data field)
      else old)"

definition mkRecord ::
  "jsval \<Rightarrow> jsval \<Rightarrow> jsval \<Rightarrow> jsval \<Rightarrow> jsval \<Rightarrow> jsval \<Rightarrow> jsval \<Rightarrow> jsval \<Rightarrow> jsval \<Rightarrow> jsval \<Rightarrow> jsval \<Rightarrow>
   jsobject" where
  "mkRecord cname sdate pdate tdue mdue climit avail cardno txs rewards bank =
     [(''customer_name'', cname),
      (''statement_date'', sdate),
      (''payment_due_date'', pdate),
      (''total_amount_due'', tdue),
      (''minimum_amount_due'', mdue),
      (''credit_limit'', climit),
      (''available_credit_limit'', avail),
      (''card_number'', cardno),
      (''transactions'', txs),
      (''reward_points_summary'', rewards),
      (''bank_name'', bank)]"

definition validScalar :: "jsval \<Rightarrow> jsval" where
  "validScalar v = (if isValidData v then v else JNull)"

definition validTransactions :: "jsval \<Rightarrow> jsval" where
  "validTransactions v = (if isValidData v then v else JArr [] [])"

definition rewardObject :: "jsval \<Rightarrow> jsval \<Rightarrow> jsval \<Rightarrow> jsval" where
  "rewardObject ob ea cl =
     JObj [(''opening_balance'', ob), (''earned'', ea), (''closing_balance'', cl)]"

definition validReward :: "jsval \<Rightarrow> jsval" where
  "validReward v =
     (if isValidData v then
        (if typeof v = TObject then
           rewardObject (orNull (js_get v ''opening_balance'')) (orNull (js_get v ''earned''))
             (orNull (js_get v ''closing_balance''))
         else v)
      else rewardObject JNull JNull JNull)"

definition derivAvail :: "js_runtime \<Rightarrow> jsval \<Rightarrow> jsval \<Rightarrow> jsval \<Rightarrow> jserror + jsval" where
  "derivAvail rt climit tdue avail =
     (if isValidData climit \<and> isValidData tdue \<and> \<not> isValidData avail
      then js_sub rt climit tdue else Inr avail)"

definition derivClosing :: "js_runtime \<Rightarrow> jsval \<Rightarrow> jserror + jsval" where
  "derivClosing rt rs =
     (if isValidData (js_get rs ''opening_balance'') \<and> isValidData (js_get rs ''earned'') \<and>
         \<not> isValidData (js_get rs ''closing_balance'')
      then (case js_add rt (js_get rs ''opening_balance'') (js_get rs ''earned'') of
              Inl e \<Rightarrow> Inl e
            | Inr c \<Rightarrow> js_set rs ''closing_balance'' c)
      else Inr rs)"

definition derivMinimum :: "js_runtime \<Rightarrow> jsval \<Rightarrow> jsval \<Rightarrow> jserror + jsval" where
  "derivMinimum rt tdue mdue =
     (if isValidData tdue \<and> \<not> isValidData mdue
      then (case toNumber rt tdue of Inl e \<Rightarrow> Inl e | Inr x \<Rightarrow> Inr (JNum (fivePercent x)))
      else Inr mdue)"

definition highVal :: "jsval \<Rightarrow> jsval \<Rightarrow> jsval" where
  "highVal a b = (if truthy b \<and> isValidData b then b else a)"

definition txVal :: "js_runtime \<Rightarrow> jsval \<Rightarrow> jsval \<Rightarrow> jserror + jsval" where
  "txVal rt a b =
     (if truthy b \<and> isValidData b \<and> isArray b then
        (case js_gt rt (js_get b ''length'') (js_or (js_get_opt a ''length'') (JNum (Fin 0))) of
           Inl e \<Rightarrow> Inl e
         | Inr longer \<Rightarrow> Inr (if longer then b else a))
      else Inr a)"

definition fillVal :: "jsval \<Rightarrow> jsval \<Rightarrow> jsval" where
  "fillVal a b =
     (if truthy b \<and> isValidData b \<and> (\<not> truthy a \<or> \<not> isValidData a) then b else a)"

definition rewardStep :: "jsval \<Rightarrow> jsval \<Rightarrow> string \<Rightarrow> jserror + jsval" where
  "rewardStep prs rs field =
     (if truthy (js_get prs field) \<and> isValidData (js_get prs field) \<and>
         (\<not> truthy rs \<or> \<not> truthy (js_get rs field) \<or> \<not> isValidData (js_get rs field))
      then js_set (if \<not> truthy rs then JObj [] else rs) field (js_get prs field)
      else Inr rs)"

definition rewardVal :: "jsval \<Rightarrow> jsval \<Rightarrow> jserror + jsval" where
  "rewardVal prs rs = (if truthy prs then foldE (rewardStep prs) rs rewardFields else Inr rs)"

definition mergedField ::
  "js_runtime \<Rightarrow> jsobject \<Rightarrow> jsobject \<Rightarrow> string \<Rightarrow> jserror + jsval" where
  "mergedField rt l p k =
     (if k = ''transactions'' then txVal rt (getField l k) (getField p k)
      else if k = ''reward_points_summary'' then rewardVal (getField p k) (getField l k)
      else if k \<in> set [''customer_name'', ''card_number'', ''bank_name'']
        then Inr (highVal (getField l k) (getField p k))
      else if k \<in> set (financialFields @ dateFields)
        then Inr (fillVal (getField l k) (getField p k))
      else Inr (getField l k))"


text \<open>
  A runtime for the concrete examples below. None of them coerces an object, prints a number
  or parses a string, so every runtime gives the same results on them.
\<close>

definition noCoercion :: js_runtime where
  "noCoercion =
     \<lparr>StringToNumber = (\<lambda>s. NaN), NumberToString = (\<lambda>n. []),
      OrdinaryToPrimitive = (\<lambda>v. Inl TypeError)\<rparr>"

text \<open>
  The length that the merge of the transactions compares against, for a value of the language
  model's record that has no \<^verbatim>\<open>length\<close> key of its own: the number of elements of a
  list, the number of code units of a string, and 0 for anything else.
\<close>

fun lengthOf :: "jsval \<Rightarrow> nat" where
  "lengthOf (JArr xs ps) = length xs"
| "lengthOf (JStr s) = length s"
| "lengthOf v = 0"

text \<open>A list with no element (whatever named properties it carries).\<close>

fun emptyArray :: "jsval \<Rightarrow> bool" where
  "emptyArray (JArr [] ps) = True"
| "emptyArray v = False"

text \<open>
  For the concrete example of the pipeline: a request that times out, and a reply in which
  neither regular expression finds a brace.
\<close>

definition noJsonRecovery :: json_recovery where
  "noJsonRecovery =
     \<lparr>codeBlockMatch = (\<lambda>s. None), jsonMatch = (\<lambda>s. None), cleanJson = (\<lambda>s. s),
      JSON_parse = (\<lambda>s. None)\<rparr>"


section \<open>Properties of the model\<close>

lemma getField_setField: "getField (setField obj k v) k' = (if k' = k then v else getField obj k')"
  by (simp add: getField_def setField_def update_conv')

lemma valid_hasField: "isValidData (getField d f) \<Longrightarrow> hasField d f"
  by (auto simp: getField_def hasField_def isValidData_def split: option.splits)

lemma update_middle:
  "k \<notin> fst ` set pre \<Longrightarrow> AList.update k v (pre @ (k, old) # rest) = pre @ (k, v) # rest"
  by (induction pre) auto

lemma validateField_middle:
  assumes "k \<notin> fst ` set pre"
  shows "validateField data (pre @ (k, old) # rest) k = pre @ (k, validatedValue data k old) # rest"
proof (cases "isValidData (getField data k)")
  case True
  then have "hasField data k" by (rule valid_hasField)
  with True assms show ?thesis
    by (cases "k = ''reward_points_summary'' \<and> typeof (getField data k) = TObject")
       (auto simp: validateField_def validatedValue_def setField_def update_middle)
next
  case False
  then show ?thesis by (simp add: validateField_def validatedValue_def)
qed

lemma foldl_validateField:
  "distinct (map fst (pre @ rest)) \<Longrightarrow>
   foldl (validateField data) (pre @ rest) (map fst rest) =
     pre @ map (\<lambda>(k, old). (k, validatedValue data k old)) rest"
proof (induction rest arbitrary: pre)
  case Nil
  then show ?case by simp
next
  case (Cons a rest)
  obtain k old where a: "a = (k, old)" by (cases a)
  from Cons.prems a have nk: "k \<notin> fst ` set pre" by auto
  from Cons.prems a have d: "distinct (map fst ((pre @ [(k, validatedValue data k old)]) @ rest))"
    by auto
  have "foldl (validateField data) (pre @ a # rest) (map fst (a # rest)) =
        foldl (validateField data) ((pre @ [(k, validatedValue data k old)]) @ rest) (map fst rest)"
    using nk a by (simp add: validateField_middle)
  also have "\<dots> = (pre @ [(k, validatedValue data k old)]) @
                   map (\<lambda>(k, old). (k, validatedValue data k old)) rest"
    by (rule Cons.IH [OF d])
  finally show ?case using a by simp
qed

lemma validateAll_map:
  "validateAll data = map (\<lambda>(k, old). (k, validatedValue data k old)) createCompleteFallbackData"
proof -
  have "distinct (map fst ([] @ createCompleteFallbackData))"
    by (simp add: createCompleteFallbackData_def)
  from foldl_validateField [OF this] show ?thesis by (simp add: validateAll_def)
qed

lemma validateAll_eq:
  "validateAll data =
     mkRecord
      (validScalar (getField data ''customer_name''))
      (validScalar (getField data ''statement_date''))
      (validScalar (getField data ''payment_due_date''))
      (validScalar (getField data ''total_amount_due''))
      (validScalar (getField data ''minimum_amount_due''))
      (validScalar (getField data ''credit_limit''))
      (validScalar (getField data ''available_credit_limit''))
      (validScalar (getField data ''card_number''))
      (validTransactions (getField data ''transactions''))
      (validReward (getField data ''reward_points_summary''))
      (validScalar (getField data ''bank_name''))"
  unfolding validateAll_map createCompleteFallbackData_def mkRecord_def
  by (simp add: validatedValue_def validScalar_def validTransactions_def validReward_def
      rewardObject_def)

lemma calcAvailableCredit_mkRecord:
  "calcAvailableCredit rt (mkRecord a1 a2 a3 a4 a5 a6 a7 a8 a9 a10 a11) =
     (case derivAvail rt a6 a4 a7 of
        Inl e \<Rightarrow> Inl e
      | Inr d \<Rightarrow> Inr (mkRecord a1 a2 a3 a4 a5 a6 d a8 a9 a10 a11))"
  by (simp add: calcAvailableCredit_def derivAvail_def mkRecord_def getField_def setField_def
      split: sum.splits)

lemma calcClosingBalance_mkRecord:
  "calcClosingBalance rt (mkRecord a1 a2 a3 a4 a5 a6 a7 a8 a9 a10 a11) =
     (case derivClosing rt a10 of
        Inl e \<Rightarrow> Inl e
      | Inr rs \<Rightarrow> Inr (mkRecord a1 a2 a3 a4 a5 a6 a7 a8 a9 rs a11))"
  by (simp add: calcClosingBalance_def derivClosing_def mkRecord_def getField_def setField_def
      split: sum.splits)

lemma calcMinimumDue_mkRecord:
  "calcMinimumDue rt (mkRecord a1 a2 a3 a4 a5 a6 a7 a8 a9 a10 a11) =
     (case derivMinimum rt a4 a5 of
        Inl e \<Rightarrow> Inl e
      | Inr m \<Rightarrow> Inr (mkRecord a1 a2 a3 a4 m a6 a7 a8 a9 a10 a11))"
  by (simp add: calcMinimumDue_def derivMinimum_def mkRecord_def getField_def setField_def
      split: sum.splits)

lemma finalValidationAndCalculation_eq:
  "finalValidationAndCalculation rt data =
     (case derivAvail rt (validScalar (getField data ''credit_limit''))
             (validScalar (getField data ''total_amount_due''))
             (validScalar (getField data ''available_credit_limit'')) of
        Inl e \<Rightarrow> Inl e
      | Inr av \<Rightarrow>
         (case derivClosing rt (validReward (getField data ''reward_points_summary'')) of
            Inl e \<Rightarrow> Inl e
          | Inr rs \<Rightarrow>
             (case derivMinimum rt (validScalar (getField data ''total_amount_due''))
                     (validScalar (getField data ''minimum_amount_due'')) of
                Inl e \<Rightarrow> Inl e
              | Inr mn \<Rightarrow>
                 Inr (mkRecord
                       (validScalar (getField data ''customer_name''))
                       (validScalar (getField data ''statement_date''))
                       (validScalar (getField data ''payment_due_date''))
                       (validScalar (getField data ''total_amount_due''))
                       mn
                       (validScalar (getField data ''credit_limit''))
                       av
                       (validScalar (getField data ''card_number''))
                       (validTransactions (getField data ''transactions''))
                       rs
                       (validScalar (getField data ''bank_name''))))))"
  unfolding finalValidationAndCalculation_def validateAll_eq
  by (simp add: calcAvailableCredit_mkRecord calcClosingBalance_mkRecord calcMinimumDue_mkRecord
      split: sum.splits)

lemma mergeFill_get:
  "getField (mergeFill p m f) k =
     (if k = f then fillVal (getField m f) (getField p f) else getField m k)"
  by (simp add: mergeFill_def fillVal_def getField_setField)

lemma foldl_mergeFill_get:
  "distinct fs \<Longrightarrow>
   getField (foldl (mergeFill p) m fs) k =
     (if k \<in> set fs then fillVal (getField m k) (getField p k) else getField m k)"
proof (induction fs arbitrary: m)
  case Nil
  then show ?case by simp
next
  case (Cons f fs)
  then show ?case by (auto simp: mergeFill_get)
qed

lemma foldl_mergeHigh_get:
  "distinct fs \<Longrightarrow>
   getField (foldl (\<lambda>m f. if truthy (getField p f) \<and> isValidData (getField p f)
                          then setField m f (getField p f) else m) m fs) k =
     (if k \<in> set fs then highVal (getField m k) (getField p k) else getField m k)"
proof (induction fs arbitrary: m)
  case Nil
  then show ?case by simp
next
  case (Cons f fs)
  then show ?case by (auto simp: highVal_def getField_setField)
qed

lemma foldE_snoc_pure:
  "(\<And>m f. f \<in> set fs \<Longrightarrow> F m f = Inr (G m f)) \<Longrightarrow>
   foldE F m (fs @ [g]) = F (foldl G m fs) g"
  by (induction fs arbitrary: m) (simp_all split: sum.splits)

lemma mergeHighPriority_other:
  "f \<noteq> ''transactions'' \<Longrightarrow>
   mergeHighPriority rt p m f =
     Inr (if truthy (getField p f) \<and> isValidData (getField p f)
          then setField m f (getField p f) else m)"
  by (simp add: mergeHighPriority_def)

lemma mergeHighPriority_transactions:
  "(case mergeHighPriority rt p m ''transactions'' of
      Inl e \<Rightarrow> txVal rt (getField m ''transactions'') (getField p ''transactions'') = Inl e
    | Inr m' \<Rightarrow>
        txVal rt (getField m ''transactions'') (getField p ''transactions'') =
          Inr (getField m' ''transactions'') \<and>
        (\<forall>k. k \<noteq> ''transactions'' \<longrightarrow> getField m' k = getField m k))"
  by (simp add: mergeHighPriority_def txVal_def getField_setField split: sum.splits)

lemma mergeReward_get:
  "(case mergeReward p m f of
      Inl e \<Rightarrow>
        rewardStep (getField p ''reward_points_summary'')
          (getField m ''reward_points_summary'') f = Inl e
    | Inr m' \<Rightarrow>
        rewardStep (getField p ''reward_points_summary'')
          (getField m ''reward_points_summary'') f = Inr (getField m' ''reward_points_summary'') \<and>
        (\<forall>k. k \<noteq> ''reward_points_summary'' \<longrightarrow> getField m' k = getField m k))"
  by (auto simp: mergeReward_def rewardStep_def getField_setField Let_def split: sum.splits)

lemma foldE_mergeReward_get:
  "(case foldE (mergeReward p) m fs of
      Inl e \<Rightarrow>
        foldE (rewardStep (getField p ''reward_points_summary''))
          (getField m ''reward_points_summary'') fs = Inl e
    | Inr m' \<Rightarrow>
        foldE (rewardStep (getField p ''reward_points_summary''))
          (getField m ''reward_points_summary'') fs = Inr (getField m' ''reward_points_summary'') \<and>
        (\<forall>k. k \<noteq> ''reward_points_summary'' \<longrightarrow> getField m' k = getField m k))"
proof (induction fs arbitrary: m)
  case Nil
  then show ?case by simp
next
  case (Cons f fs)
  show ?case
  proof (cases "mergeReward p m f")
    case (Inl e)
    with mergeReward_get [where p=p and m=m and f=f] show ?thesis by simp
  next
    case (Inr m1)
    with mergeReward_get [where p=p and m=m and f=f] Cons.IH [where m=m1] show ?thesis
      by (auto split: sum.splits)
  qed
qed

lemma highPriority_phase:
  "(case foldE (mergeHighPriority rt p) l highPriorityFields of
      Inl e \<Rightarrow> txVal rt (getField l ''transactions'') (getField p ''transactions'') = Inl e
    | Inr m1 \<Rightarrow>
        txVal rt (getField l ''transactions'') (getField p ''transactions'') =
          Inr (getField m1 ''transactions'') \<and>
        (\<forall>k. k \<noteq> ''transactions'' \<longrightarrow>
           getField m1 k =
             (if k \<in> set [''customer_name'', ''card_number'', ''bank_name'']
              then highVal (getField l k) (getField p k) else getField l k)))"
proof -
  define m0 where "m0 = foldl (\<lambda>m f. if truthy (getField p f) \<and> isValidData (getField p f)
          then setField m f (getField p f) else m) l [''customer_name'', ''card_number'', ''bank_name'']"
  have m0: "getField m0 k =
      (if k \<in> set [''customer_name'', ''card_number'', ''bank_name'']
       then highVal (getField l k) (getField p k) else getField l k)" for k
    unfolding m0_def by (subst foldl_mergeHigh_get) simp_all
  have m0t: "getField m0 ''transactions'' = getField l ''transactions''"
    by (simp add: m0)
  have "foldE (mergeHighPriority rt p) l
        ([''customer_name'', ''card_number'', ''bank_name''] @ [''transactions'']) =
        mergeHighPriority rt p m0 ''transactions''"
    unfolding m0_def
    by (rule foldE_snoc_pure) (auto simp: mergeHighPriority_other)
  then have hp: "foldE (mergeHighPriority rt p) l highPriorityFields =
      mergeHighPriority rt p m0 ''transactions''"
    by (simp add: highPriorityFields_def)
  show ?thesis
  proof (cases "mergeHighPriority rt p m0 ''transactions''")
    case (Inl e)
    with mergeHighPriority_transactions [where rt=rt and p=p and m=m0]
    show ?thesis unfolding hp m0t by simp
  next
    case (Inr m1)
    with mergeHighPriority_transactions [where rt=rt and p=p and m=m0]
    have "txVal rt (getField l ''transactions'') (getField p ''transactions'') =
          Inr (getField m1 ''transactions'')"
      and "\<forall>k. k \<noteq> ''transactions'' \<longrightarrow> getField m1 k = getField m0 k"
      unfolding m0t by simp_all
    then show ?thesis unfolding hp Inr by (simp only: sum.case m0)
  qed
qed

lemma fill_phase:
  "getField (foldl (mergeFill p) (foldl (mergeFill p) m1 financialFields) dateFields) k =
     (if k \<in> set (financialFields @ dateFields)
      then fillVal (getField m1 k) (getField p k) else getField m1 k)"
proof -
  have "distinct (financialFields @ dateFields)"
    by (simp add: financialFields_def dateFields_def)
  from foldl_mergeFill_get [OF this, of p m1 k] show ?thesis by simp
qed

lemma mergedField_other:
  "k \<noteq> ''transactions'' \<Longrightarrow> k \<noteq> ''reward_points_summary'' \<Longrightarrow>
   mergedField rt l p k =
     Inr (if k \<in> set (financialFields @ dateFields)
          then fillVal
                 (if k \<in> set [''customer_name'', ''card_number'', ''bank_name'']
                  then highVal (getField l k) (getField p k) else getField l k)
                 (getField p k)
          else if k \<in> set [''customer_name'', ''card_number'', ''bank_name'']
            then highVal (getField l k) (getField p k) else getField l k)"
  by (auto simp: mergedField_def financialFields_def dateFields_def)

lemma robustDataMerging_fields:
  "(case robustDataMerging rt l p of
      Inl e \<Rightarrow>
        mergedField rt l p ''transactions'' = Inl e \<or>
        mergedField rt l p ''reward_points_summary'' = Inl e
    | Inr m \<Rightarrow> (\<forall>k. mergedField rt l p k = Inr (getField m k)))"
proof (cases "foldE (mergeHighPriority rt p) l highPriorityFields")
  case (Inl e)
  with highPriority_phase [where rt=rt and p=p and l=l]
  show ?thesis by (simp add: robustDataMerging_def mergedField_def)
next
  case (Inr m1)
  with highPriority_phase [where rt=rt and p=p and l=l]
  have t1: "txVal rt (getField l ''transactions'') (getField p ''transactions'') =
        Inr (getField m1 ''transactions'')"
    and o1: "\<And>k. k \<noteq> ''transactions'' \<Longrightarrow> getField m1 k =
             (if k \<in> set [''customer_name'', ''card_number'', ''bank_name'']
              then highVal (getField l k) (getField p k) else getField l k)"
    by simp_all
  define m3 where
    "m3 = foldl (mergeFill p) (foldl (mergeFill p) m1 financialFields) dateFields"
  have m3: "getField m3 k =
      (if k \<in> set (financialFields @ dateFields)
       then fillVal (getField m1 k) (getField p k) else getField m1 k)" for k
    unfolding m3_def by (rule fill_phase)
  have rdm: "robustDataMerging rt l p =
      (if truthy (getField p ''reward_points_summary'')
       then foldE (mergeReward p) m3 rewardFields else Inr m3)"
    unfolding robustDataMerging_def Inr m3_def by (simp only: sum.case Let_def)
  have m3t: "getField m3 ''transactions'' = getField m1 ''transactions''"
    unfolding m3 by (simp add: financialFields_def dateFields_def)
  have m3r: "getField m3 ''reward_points_summary'' = getField l ''reward_points_summary''"
    unfolding m3 by (simp add: financialFields_def dateFields_def o1)
  have pre: "mergedField rt l p k = Inr (getField m3 k)"
    if k: "k \<noteq> ''reward_points_summary''" for k
  proof (cases "k = ''transactions''")
    case True
    then show ?thesis using t1 m3t by (simp add: mergedField_def)
  next
    case False
    from o1 [OF False] m3 [of k] mergedField_other [OF False k, of rt l p]
    show ?thesis by (simp only:)
  qed
  show ?thesis
  proof (cases "truthy (getField p ''reward_points_summary'')")
    case False
    then have "mergedField rt l p ''reward_points_summary'' =
        Inr (getField m3 ''reward_points_summary'')"
      by (simp add: mergedField_def rewardVal_def m3r)
    with pre have "mergedField rt l p k = Inr (getField m3 k)" for k
      by (cases "k = ''reward_points_summary''") simp_all
    then show ?thesis unfolding rdm using False by simp
  next
    case True
    then have rv: "mergedField rt l p ''reward_points_summary'' =
        foldE (rewardStep (getField p ''reward_points_summary''))
          (getField m3 ''reward_points_summary'') rewardFields"
      by (simp add: mergedField_def rewardVal_def m3r)
    from True have r: "robustDataMerging rt l p = foldE (mergeReward p) m3 rewardFields"
      unfolding rdm by simp
    show ?thesis
    proof (cases "foldE (mergeReward p) m3 rewardFields")
      case (Inl e)
      with foldE_mergeReward_get [where p=p and m=m3 and fs=rewardFields]
      show ?thesis unfolding r rv by simp
    next
      case (Inr m)
      with foldE_mergeReward_get [where p=p and m=m3 and fs=rewardFields]
      have a: "foldE (rewardStep (getField p ''reward_points_summary''))
          (getField m3 ''reward_points_summary'') rewardFields =
            Inr (getField m ''reward_points_summary'')"
        and b: "\<And>k. k \<noteq> ''reward_points_summary'' \<Longrightarrow> getField m k = getField m3 k"
        by simp_all
      have "mergedField rt l p k = Inr (getField m k)" for k
      proof (cases "k = ''reward_points_summary''")
        case True
        then show ?thesis using rv a by simp
      next
        case False
        then show ?thesis using pre [OF False] b [OF False] by simp
      qed
      then show ?thesis unfolding r Inr by simp
    qed
  qed
qed

lemma finalize_InrD:
  assumes "finalValidationAndCalculation rt data = Inr r"
  obtains av rs mn where
    "derivAvail rt (validScalar (getField data ''credit_limit''))
       (validScalar (getField data ''total_amount_due''))
       (validScalar (getField data ''available_credit_limit'')) = Inr av"
    "derivClosing rt (validReward (getField data ''reward_points_summary'')) = Inr rs"
    "derivMinimum rt (validScalar (getField data ''total_amount_due''))
       (validScalar (getField data ''minimum_amount_due'')) = Inr mn"
    "r = mkRecord
           (validScalar (getField data ''customer_name''))
           (validScalar (getField data ''statement_date''))
           (validScalar (getField data ''payment_due_date''))
           (validScalar (getField data ''total_amount_due''))
           mn
           (validScalar (getField data ''credit_limit''))
           av
           (validScalar (getField data ''card_number''))
           (validTransactions (getField data ''transactions''))
           rs
           (validScalar (getField data ''bank_name''))"
  using assms unfolding finalValidationAndCalculation_eq
  by (auto split: sum.splits)

lemma getField_mkRecord:
  "getField (mkRecord a1 a2 a3 a4 a5 a6 a7 a8 a9 a10 a11) ''customer_name'' = a1"
  "getField (mkRecord a1 a2 a3 a4 a5 a6 a7 a8 a9 a10 a11) ''statement_date'' = a2"
  "getField (mkRecord a1 a2 a3 a4 a5 a6 a7 a8 a9 a10 a11) ''payment_due_date'' = a3"
  "getField (mkRecord a1 a2 a3 a4 a5 a6 a7 a8 a9 a10 a11) ''total_amount_due'' = a4"
  "getField (mkRecord a1 a2 a3 a4 a5 a6 a7 a8 a9 a10 a11) ''minimum_amount_due'' = a5"
  "getField (mkRecord a1 a2 a3 a4 a5 a6 a7 a8 a9 a10 a11) ''credit_limit'' = a6"
  "getField (mkRecord a1 a2 a3 a4 a5 a6 a7 a8 a9 a10 a11) ''available_credit_limit'' = a7"
  "getField (mkRecord a1 a2 a3 a4 a5 a6 a7 a8 a9 a10 a11) ''card_number'' = a8"
  "getField (mkRecord a1 a2 a3 a4 a5 a6 a7 a8 a9 a10 a11) ''transactions'' = a9"
  "getField (mkRecord a1 a2 a3 a4 a5 a6 a7 a8 a9 a10 a11) ''reward_points_summary'' = a10"
  "getField (mkRecord a1 a2 a3 a4 a5 a6 a7 a8 a9 a10 a11) ''bank_name'' = a11"
  by (simp_all add: mkRecord_def getField_def)

lemma isValidData_validScalar [simp]: "isValidData (validScalar v) = isValidData v"
  by (simp add: validScalar_def isValidData_def)


lemma toNumber_JNum [simp]: "toNumber rt (JNum n) = Inr n"
  by (simp add: toNumber_def toPrimitive_def)

lemma js_sub_JNum [simp]: "js_sub rt (JNum a) (JNum b) = Inr (JNum (num_sub a b))"
  by (simp add: js_sub_def)

lemma js_add_JNum [simp]: "js_add rt (JNum a) (JNum b) = Inr (JNum (num_add a b))"
  by (simp add: js_add_def toPrimitive_def)

lemma floor_rat_numeral:
  "\<lfloor>numeral a / numeral b :: rat\<rfloor> = numeral a div numeral b"
  using floor_divide_of_int_eq [of "numeral a" "numeral b", where ?'a = rat] by simp

lemma floor_rat_one:
  "\<lfloor>1 / numeral b :: rat\<rfloor> = 1 div numeral b"
  using floor_divide_of_int_eq [of 1 "numeral b", where ?'a = rat] by simp


lemma js_get_rewardObject [simp]:
  "js_get (rewardObject a b c) ''opening_balance'' = a"
  "js_get (rewardObject a b c) ''earned'' = b"
  "js_get (rewardObject a b c) ''closing_balance'' = c"
  by (simp_all add: rewardObject_def getField_def)

lemma js_set_rewardObject [simp]:
  "js_set (rewardObject a b c) ''closing_balance'' x = Inr (rewardObject a b x)"
  by (simp add: rewardObject_def setField_def)

lemma isValidData_orNull [simp]: "isValidData (orNull v) = isValidData v"
  by (simp add: orNull_def isValidData_def)

lemma orNull_valid: "isValidData v \<Longrightarrow> orNull v = v"
  by (auto simp: orNull_def isValidData_def)


lemma noCoercion_simps [simp]:
  "StringToNumber noCoercion s = NaN"
  "NumberToString noCoercion n = []"
  "OrdinaryToPrimitive noCoercion v = Inl TypeError"
  by (simp_all add: noCoercion_def)

lemmas finalize_eval =
  finalValidationAndCalculation_eq getField_def validScalar_def validTransactions_def
  validReward_def isValidData_def derivAvail_def derivClosing_def derivMinimum_def
  mkRecord_def rewardObject_def orNull_def sentinelStrings_def toLowerCase_def toLowerChar_def
  setField_def js_add_def js_sub_def toNumber_def toPrimitive_def fivePercent_def num_sub_def
  floor_rat_numeral floor_rat_one

lemma toPrimitive_prim: "isPrimitive v \<Longrightarrow> toPrimitive rt v = Inr v"
  by (simp add: toPrimitive_def)

lemma isPrimitive_validScalar: "isPrimitive v \<Longrightarrow> isPrimitive (validScalar v)"
  by (simp add: validScalar_def)

lemma isPrimitive_orNull: "isPrimitive v \<Longrightarrow> isPrimitive (orNull v)"
  by (simp add: orNull_def)

lemma validScalar_defined: "validScalar v \<noteq> JUndefined"
  by (auto simp: validScalar_def isValidData_def)

lemma orNull_defined: "orNull v \<noteq> JUndefined"
  by (simp add: orNull_def)

lemma js_sub_defined: "js_sub rt a b = Inr d \<Longrightarrow> d \<noteq> JUndefined"
  by (auto simp: js_sub_def split: sum.splits)

lemma js_add_defined: "js_add rt a b = Inr d \<Longrightarrow> d \<noteq> JUndefined"
  by (auto simp: js_add_def split: sum.splits if_splits)

lemma derivAvail_defined:
  "derivAvail rt (validScalar a) (validScalar b) (validScalar c) = Inr d \<Longrightarrow> d \<noteq> JUndefined"
  using validScalar_defined [of c]
  by (auto simp: derivAvail_def dest: js_sub_defined split: if_splits)

lemma derivMinimum_defined:
  "derivMinimum rt (validScalar a) (validScalar b) = Inr d \<Longrightarrow> d \<noteq> JUndefined"
  using validScalar_defined [of b]
  by (auto simp: derivMinimum_def split: if_splits sum.splits)

lemma invalid_simps [simp]: "\<not> isValidData JUndefined" "\<not> isValidData JNull"
  by (simp_all add: isValidData_def)

lemma validReward_cases:
  "validReward v =
     (if isValidData v \<and> typeof v \<noteq> TObject then v
      else rewardObject (if isValidData v then orNull (js_get v ''opening_balance'') else JNull)
             (if isValidData v then orNull (js_get v ''earned'') else JNull)
             (if isValidData v then orNull (js_get v ''closing_balance'') else JNull))"
  by (simp add: validReward_def)

lemma js_get_primitive:
  "typeof v \<noteq> TObject \<Longrightarrow> k \<noteq> ''length'' \<Longrightarrow> js_get v k = JUndefined"
  by (cases v) simp_all

lemma derivClosing_primitive:
  "typeof v \<noteq> TObject \<Longrightarrow> derivClosing rt v = Inr v"
  by (simp add: derivClosing_def js_get_primitive isValidData_def)

lemma derivClosing_rewardObject:
  "derivClosing rt (rewardObject a b c) =
     (if isValidData a \<and> isValidData b \<and> \<not> isValidData c
      then (case js_add rt a b of Inl e \<Rightarrow> Inl e | Inr x \<Rightarrow> Inr (rewardObject a b x))
      else Inr (rewardObject a b c))"
  by (simp add: derivClosing_def split: sum.splits)

lemma finalize_returns:
  assumes "isPrimitive (getField data ''credit_limit'')"
    and "isPrimitive (getField data ''total_amount_due'')"
    and "isPrimitive (js_get (getField data ''reward_points_summary'') ''opening_balance'')"
    and "isPrimitive (js_get (getField data ''reward_points_summary'') ''earned'')"
  shows "\<exists>r. finalValidationAndCalculation rt data = Inr r"
proof -
  have pc: "isPrimitive (validScalar (getField data ''credit_limit''))"
    and pt: "isPrimitive (validScalar (getField data ''total_amount_due''))"
    using assms by (simp_all add: isPrimitive_validScalar)
  have 1: "\<exists>av. derivAvail rt (validScalar (getField data ''credit_limit''))
             (validScalar (getField data ''total_amount_due''))
             (validScalar (getField data ''available_credit_limit'')) = Inr av"
    using pc pt by (simp add: derivAvail_def js_sub_def toNumber_def toPrimitive_prim)
  have 3: "\<exists>mn. derivMinimum rt (validScalar (getField data ''total_amount_due''))
             (validScalar (getField data ''minimum_amount_due'')) = Inr mn"
    using pt by (simp add: derivMinimum_def toNumber_def toPrimitive_prim)
  have 2: "\<exists>rs. derivClosing rt (validReward (getField data ''reward_points_summary'')) = Inr rs"
  proof (cases "isValidData (getField data ''reward_points_summary'') \<and>
      typeof (getField data ''reward_points_summary'') \<noteq> TObject")
    case True
    then show ?thesis by (simp add: validReward_cases derivClosing_primitive)
  next
    case False
    then show ?thesis
      using assms(3,4)
      by (auto simp: validReward_cases derivClosing_rewardObject js_add_def toPrimitive_prim
          isPrimitive_orNull)
  qed
  from 1 2 3 show ?thesis
    unfolding finalValidationAndCalculation_eq by (auto split: sum.splits)
qed

lemma derivClosing_validReward:
  "derivClosing rt (validReward v) =
     (if isValidData v \<and> typeof v \<noteq> TObject then Inr v
      else if \<not> isValidData v then Inr (rewardObject JNull JNull JNull)
      else if isValidData (js_get v ''opening_balance'') \<and> isValidData (js_get v ''earned'') \<and>
              \<not> isValidData (js_get v ''closing_balance'')
        then (case js_add rt (js_get v ''opening_balance'') (js_get v ''earned'') of
                Inl e \<Rightarrow> Inl e
              | Inr x \<Rightarrow>
                  Inr (rewardObject (orNull (js_get v ''opening_balance''))
                         (orNull (js_get v ''earned'')) x))
      else Inr (rewardObject (orNull (js_get v ''opening_balance''))
                  (orNull (js_get v ''earned'')) (orNull (js_get v ''closing_balance''))))"
  by (auto simp: validReward_cases derivClosing_primitive derivClosing_rewardObject orNull_valid)

lemma merge_InrD:
  "robustDataMerging rt l p = Inr m \<Longrightarrow> mergedField rt l p k = Inr (getField m k)"
  using robustDataMerging_fields [where rt=rt and l=l and p=p] by simp

lemma merge_returns:
  assumes "mergedField rt l p ''transactions'' = Inr t"
    and "mergedField rt l p ''reward_points_summary'' = Inr rs"
  shows "\<exists>m. robustDataMerging rt l p = Inr m"
proof (cases "robustDataMerging rt l p")
  case (Inl e)
  with robustDataMerging_fields [where rt=rt and l=l and p=p] assms show ?thesis by simp
next
  case (Inr m)
  then show ?thesis by blast
qed

lemmas merge_eval =
  robustDataMerging_def highPriorityFields_def financialFields_def dateFields_def
  rewardFields_def mergeHighPriority_def mergeFill_def mergeReward_def getField_def setField_def
  isValidData_def sentinelStrings_def toLowerCase_def toLowerChar_def js_gt_def js_or_def
  js_get_opt_def toPrimitive_def Let_def

lemma js_gt_nat:
  "js_gt rt (JNum (Fin (of_nat n))) (JNum (Fin (of_nat k))) = Inr (k < n)"
  by (simp add: js_gt_def toPrimitive_def)

lemma js_or_length:
  assumes "\<forall>ps. a = JObj ps \<longrightarrow> getField ps ''length'' = JUndefined"
  shows "js_or (js_get_opt a ''length'') (JNum (Fin 0)) = JNum (Fin (of_nat (lengthOf a)))"
  using assms by (cases a) (auto simp: js_or_def js_get_opt_def)

lemma txVal_lengthOf:
  assumes "\<forall>ps. a = JObj ps \<longrightarrow> getField ps ''length'' = JUndefined"
  shows "txVal rt a b = Inr (if isArray b \<and> lengthOf a < array_length b then b else a)"
proof (cases b)
  case (JArr bs ps)
  have "js_gt rt (JNum (Fin (of_nat (length bs)))) (JNum (Fin (of_nat (lengthOf a)))) =
      Inr (lengthOf a < length bs)"
    by (rule js_gt_nat)
  with JArr show ?thesis
    by (cases bs) (simp_all add: txVal_def js_or_length [OF assms] isValidData_def)
qed (simp_all add: txVal_def)

lemma fillVal_falsy: "\<not> truthy b \<Longrightarrow> fillVal a b = a"
  by (simp add: fillVal_def)

lemma rewardStep_skip:
  "\<not> (truthy (js_get prs g) \<and> isValidData (js_get prs g)) \<Longrightarrow> rewardStep prs rs g = Inr rs"
  by (auto simp: rewardStep_def)

lemma js_get_falsy:
  "\<not> truthy v \<Longrightarrow> f \<noteq> ''length'' \<Longrightarrow> js_get v f = JUndefined"
  by (cases v) simp_all

lemma js_get_js_set_other:
  "js_set v g x = Inr v' \<Longrightarrow> f \<noteq> g \<Longrightarrow> f \<noteq> ''length'' \<Longrightarrow> js_get v' f = js_get v f"
  by (cases v) (auto simp: getField_setField)

lemma js_get_js_set_same:
  "js_set v g x = Inr v' \<Longrightarrow> g \<noteq> ''length'' \<Longrightarrow> js_get v' g = x"
  by (cases v) (auto simp: getField_setField)

lemma rewardStep_other:
  assumes "rewardStep prs rs g = Inr rs1" and "f \<noteq> g" and "f \<noteq> ''length''"
  shows "js_get rs1 f = js_get rs f"
proof (cases "rs1 = rs")
  case True
  then show ?thesis by simp
next
  case False
  with assms(1) have s: "js_set (if \<not> truthy rs then JObj [] else rs) g (js_get prs g) = Inr rs1"
    by (auto simp: rewardStep_def split: if_splits)
  show ?thesis
  proof (cases "truthy rs")
    case True
    with s assms(2,3) show ?thesis by (simp add: js_get_js_set_other)
  next
    case False
    with s have "js_set (JObj []) g (js_get prs g) = Inr rs1" by simp
    from js_get_js_set_other [OF this assms(2,3)]
    have "js_get rs1 f = js_get (JObj []) f" .
    with False assms(3) show ?thesis by (simp add: js_get_falsy getField_def)
  qed
qed

lemma foldE_rewardStep_keep:
  assumes "foldE (rewardStep prs) rs gs = Inr rs'"
    and "f \<noteq> ''length''"
    and "f \<in> set gs \<longrightarrow> \<not> (truthy (js_get prs f) \<and> isValidData (js_get prs f))"
  shows "js_get rs' f = js_get rs f"
  using assms
proof (induction gs arbitrary: rs)
  case Nil
  then show ?case by simp
next
  case (Cons g gs)
  from Cons.prems(1) obtain rs1 where
    1: "rewardStep prs rs g = Inr rs1" and 2: "foldE (rewardStep prs) rs1 gs = Inr rs'"
    by (auto split: sum.splits)
  from Cons.prems(3) have 3: "f \<in> set gs \<longrightarrow> \<not> (truthy (js_get prs f) \<and> isValidData (js_get prs f))"
    by simp
  have "js_get rs1 f = js_get rs f"
  proof (cases "f = g")
    case True
    with Cons.prems(3) 1 show ?thesis by (simp add: rewardStep_skip)
  next
    case False
    with 1 Cons.prems(2) show ?thesis by (simp add: rewardStep_other)
  qed
  with Cons.IH [OF 2 Cons.prems(2) 3] show ?case by simp
qed

lemma validScalar_idem [simp]: "validScalar (validScalar v) = validScalar v"
  by (simp add: validScalar_def)

lemma validTransactions_idem [simp]:
  "validTransactions (validTransactions v) = validTransactions v"
  by (simp add: validTransactions_def isValidData_def)

lemma orNull_idem [simp]: "orNull (orNull v) = orNull v"
  by (simp add: orNull_def)

lemma js_add_orNull: "js_add rt a b = Inr x \<Longrightarrow> orNull x = x"
  by (auto simp: js_add_def orNull_def split: sum.splits if_splits)

lemma isValidData_rewardObject [simp]: "isValidData (rewardObject a b c)"
  by (simp add: rewardObject_def isValidData_def)

lemma typeof_rewardObject [simp]: "typeof (rewardObject a b c) = TObject"
  by (simp add: rewardObject_def)

lemma validReward_rewardObject:
  "validReward (rewardObject a b c) = rewardObject (orNull a) (orNull b) (orNull c)"
  by (simp add: validReward_def)

lemma derivClosing_idem:
  assumes "derivClosing rt (validReward v) = Inr rs"
  shows "derivClosing rt (validReward rs) = Inr rs"
proof (cases "isValidData v \<and> typeof v \<noteq> TObject")
  case True
  with assms have "rs = v" by (simp add: derivClosing_validReward)
  with assms show ?thesis by simp
next
  case False
  show ?thesis
  proof (cases "isValidData v")
    case inv: False
    with assms have "rs = rewardObject JNull JNull JNull"
      by (simp add: derivClosing_validReward)
    then show ?thesis
      by (simp add: validReward_rewardObject derivClosing_rewardObject orNull_def)
  next
    case val: True
    let ?o = "js_get v ''opening_balance''" and ?e = "js_get v ''earned''"
      and ?c = "js_get v ''closing_balance''"
    show ?thesis
    proof (cases "isValidData ?o \<and> isValidData ?e \<and> \<not> isValidData ?c")
      case True
      with assms val False obtain x where x: "js_add rt ?o ?e = Inr x"
        and rs: "rs = rewardObject (orNull ?o) (orNull ?e) x"
        by (auto simp: derivClosing_validReward split: sum.splits)
      from True have oe: "orNull ?o = ?o" "orNull ?e = ?e" by (simp_all add: orNull_valid)
      from x have "orNull x = x" by (rule js_add_orNull)
      with rs oe x True show ?thesis
        by (simp add: validReward_rewardObject derivClosing_rewardObject)
    next
      case nd: False
      with assms val False
      have rs: "rs = rewardObject (orNull ?o) (orNull ?e) (orNull ?c)"
        by (auto simp: derivClosing_validReward)
      with nd show ?thesis
        by (auto simp: validReward_rewardObject derivClosing_rewardObject)
    qed
  qed
qed

lemma derivAvail_idem:
  assumes "derivAvail rt c t (validScalar a) = Inr av"
  shows "derivAvail rt c t (validScalar av) = Inr av"
proof (cases "isValidData c \<and> isValidData t \<and> \<not> isValidData a")
  case True
  with assms have "js_sub rt c t = Inr av" by (simp add: derivAvail_def)
  with True show ?thesis by (simp add: derivAvail_def validScalar_def)
next
  case False
  with assms have "av = validScalar a" by (auto simp: derivAvail_def)
  with assms show ?thesis by simp
qed

lemma derivMinimum_idem:
  assumes "derivMinimum rt t (validScalar a) = Inr mn"
  shows "derivMinimum rt t (validScalar mn) = Inr mn"
proof (cases "isValidData t \<and> \<not> isValidData a")
  case True
  with assms have "(case toNumber rt t of Inl e \<Rightarrow> Inl e | Inr x \<Rightarrow> Inr (JNum (fivePercent x))) =
      Inr mn"
    by (simp add: derivMinimum_def)
  with True show ?thesis by (simp add: derivMinimum_def validScalar_def)
next
  case False
  with assms have "mn = validScalar a" by (auto simp: derivMinimum_def)
  with assms show ?thesis by simp
qed

lemma finalize_idem:
  assumes "finalValidationAndCalculation rt data = Inr r"
  shows "finalValidationAndCalculation rt r = Inr r"
proof -
  from assms obtain av rs mn where
    av: "derivAvail rt (validScalar (getField data ''credit_limit''))
       (validScalar (getField data ''total_amount_due''))
       (validScalar (getField data ''available_credit_limit'')) = Inr av"
    and rs: "derivClosing rt (validReward (getField data ''reward_points_summary'')) = Inr rs"
    and mn: "derivMinimum rt (validScalar (getField data ''total_amount_due''))
       (validScalar (getField data ''minimum_amount_due'')) = Inr mn"
    and r: "r = mkRecord
           (validScalar (getField data ''customer_name''))
           (validScalar (getField data ''statement_date''))
           (validScalar (getField data ''payment_due_date''))
           (validScalar (getField data ''total_amount_due''))
           mn
           (validScalar (getField data ''credit_limit''))
           av
           (validScalar (getField data ''card_number''))
           (validTransactions (getField data ''transactions''))
           rs
           (validScalar (getField data ''bank_name''))"
    by (rule finalize_InrD)
  note a = derivAvail_idem [OF av] and c = derivClosing_idem [OF rs]
    and m = derivMinimum_idem [OF mn]
  show ?thesis
    unfolding finalValidationAndCalculation_eq [of rt r]
    unfolding r getField_mkRecord validScalar_idem validTransactions_idem a c m
    by simp
qed

lemma finalize_cong:
  assumes "\<And>k. k \<in> set (map fst createCompleteFallbackData) \<Longrightarrow> getField d k = getField d' k"
  shows "finalValidationAndCalculation rt d = finalValidationAndCalculation rt d'"
proof -
  have e: "getField d k = getField d' k"
    if "k \<in> set [''customer_name'', ''statement_date'', ''payment_due_date'',
        ''total_amount_due'', ''minimum_amount_due'', ''credit_limit'',
        ''available_credit_limit'', ''card_number'', ''transactions'',
        ''reward_points_summary'', ''bank_name'']" for k
    using that assms [of k] by (simp add: createCompleteFallbackData_def)
  note es = e [of "''customer_name''", simplified] e [of "''statement_date''", simplified]
    e [of "''payment_due_date''", simplified] e [of "''total_amount_due''", simplified]
    e [of "''minimum_amount_due''", simplified] e [of "''credit_limit''", simplified]
    e [of "''available_credit_limit''", simplified] e [of "''card_number''", simplified]
    e [of "''transactions''", simplified] e [of "''reward_points_summary''", simplified]
    e [of "''bank_name''", simplified]
  show ?thesis
    unfolding finalValidationAndCalculation_eq es ..
qed

lemma high_fix: "highVal (validScalar (highVal a b)) b = validScalar (highVal a b)"
  by (simp add: highVal_def validScalar_def)

lemma fill_valid: "truthy b \<Longrightarrow> isValidData b \<Longrightarrow> isValidData (fillVal a b)"
  by (auto simp: fillVal_def)

lemma fill_fix: "fillVal (validScalar (fillVal a b)) b = validScalar (fillVal a b)"
  by (auto simp: fillVal_def validScalar_def)

lemma fill_skip: "\<not> (truthy b \<and> isValidData b) \<Longrightarrow> fillVal a b = a"
  by (auto simp: fillVal_def)

lemma derivAvail_fill_fix:
  assumes "derivAvail rt c t (validScalar (fillVal a b)) = Inr av"
  shows "fillVal av b = av"
proof (cases "isValidData c \<and> isValidData t \<and> \<not> isValidData (fillVal a b)")
  case True
  then have "\<not> (truthy b \<and> isValidData b)" using fill_valid [of b a] by blast
  then show ?thesis by (rule fill_skip)
next
  case False
  with assms have "av = validScalar (fillVal a b)" by (auto simp: derivAvail_def)
  then show ?thesis by (simp add: fill_fix)
qed

lemma derivMinimum_fill_fix:
  assumes "derivMinimum rt t (validScalar (fillVal a b)) = Inr mn"
  shows "fillVal mn b = mn"
proof (cases "isValidData t \<and> \<not> isValidData (fillVal a b)")
  case True
  then have "\<not> (truthy b \<and> isValidData b)" using fill_valid [of b a] by blast
  then show ?thesis by (rule fill_skip)
next
  case False
  with assms have "mn = validScalar (fillVal a b)" by (auto simp: derivMinimum_def)
  then show ?thesis by (simp add: fill_fix)
qed

lemma js_gt_JNum: "js_gt rt (JNum x) (JNum y) = Inr (num_less y x)"
  by (simp add: js_gt_def toPrimitive_def)

lemma js_or_invalid_length:
  "\<not> isValidData a \<Longrightarrow> \<not> isString a \<Longrightarrow>
   js_or (js_get_opt a ''length'') (JNum (Fin 0)) = JNum (Fin 0)"
  by (cases a) (auto simp: js_or_def js_get_opt_def isValidData_def getField_def split: if_splits)

lemma tx_fix:
  assumes t: "txVal rt a b = Inr t"
    and h: "isValidData a \<or> \<not> isString a"
  shows "txVal rt (validTransactions t) b = Inr (validTransactions t)"
proof (cases "truthy b \<and> isValidData b \<and> isArray b")
  case False
  then show ?thesis by (auto simp: txVal_def)
next
  case True
  then obtain bs ps where b: "b = JArr bs ps" and bs: "bs \<noteq> []"
    by (cases b) (auto simp: isValidData_def split: if_splits)
  have bb: "txVal rt b b = Inr b"
    using bs by (simp add: b txVal_def js_or_def js_get_opt_def js_gt_JNum isValidData_def)
  have vb: "validTransactions b = b"
    using True by (simp add: validTransactions_def)
  from t True obtain g where
    g: "js_gt rt (js_get b ''length'') (js_or (js_get_opt a ''length'') (JNum (Fin 0))) = Inr g"
    and tg: "t = (if g then b else a)"
    by (auto simp: txVal_def split: sum.splits)
  show ?thesis
  proof (cases g)
    case True
    with tg bb vb show ?thesis by simp
  next
    case ng: False
    show ?thesis
    proof (cases "isValidData a")
      case True
      with tg ng t show ?thesis by (simp add: validTransactions_def)
    next
      case False
      with h have "\<not> isString a" by simp
      with False have "js_or (js_get_opt a ''length'') (JNum (Fin 0)) = JNum (Fin 0)"
        by (rule js_or_invalid_length)
      with g b bs have "g" by (simp add: js_gt_JNum)
      with ng show ?thesis by simp
    qed
  qed
qed

lemma foldE_const: "(\<And>g. g \<in> set gs \<Longrightarrow> F s g = Inr s) \<Longrightarrow> foldE F s gs = Inr s"
  by (induction gs) simp_all

lemma rewardStep_sets:
  assumes "rewardStep prs rs f = Inr rs1"
    and "truthy (js_get prs f) \<and> isValidData (js_get prs f)"
    and "f \<noteq> ''length''"
  shows "truthy (js_get rs1 f) \<and> isValidData (js_get rs1 f)"
proof (cases "\<not> truthy rs \<or> \<not> truthy (js_get rs f) \<or> \<not> isValidData (js_get rs f)")
  case True
  with assms(1,2) have "js_set (if \<not> truthy rs then JObj [] else rs) f (js_get prs f) = Inr rs1"
    by (simp add: rewardStep_def)
  from js_get_js_set_same [OF this assms(3)] assms(2) show ?thesis by simp
next
  case False
  with assms(1) have "rs1 = rs" by (auto simp: rewardStep_def)
  with False show ?thesis by simp
qed

lemma rewardStep_keeps:
  assumes "rewardStep prs rs g = Inr rs1"
    and "truthy (js_get rs f) \<and> isValidData (js_get rs f)"
    and "f \<noteq> ''length''"
  shows "truthy (js_get rs1 f) \<and> isValidData (js_get rs1 f)"
proof (cases "f = g")
  case False
  with rewardStep_other [OF assms(1) False assms(3)] assms(2) show ?thesis by simp
next
  case True
  show ?thesis
  proof (cases "truthy (js_get prs f) \<and> isValidData (js_get prs f)")
    case p: True
    from assms(1) have "rewardStep prs rs f = Inr rs1" using True by simp
    then show ?thesis using p assms(3) by (rule rewardStep_sets)
  next
    case False
    with assms(1) True have "rs1 = rs" by (simp add: rewardStep_skip)
    with assms(2) show ?thesis by simp
  qed
qed

lemma foldE_rewardStep_keeps:
  assumes "foldE (rewardStep prs) rs gs = Inr rs'"
    and "truthy (js_get rs f) \<and> isValidData (js_get rs f)"
    and "f \<noteq> ''length''"
  shows "truthy (js_get rs' f) \<and> isValidData (js_get rs' f)"
  using assms
proof (induction gs arbitrary: rs)
  case Nil
  then show ?case by simp
next
  case (Cons g gs)
  from Cons.prems(1) obtain rs1 where
    1: "rewardStep prs rs g = Inr rs1" and 2: "foldE (rewardStep prs) rs1 gs = Inr rs'"
    by (auto split: sum.splits)
  from rewardStep_keeps [OF 1 Cons.prems(2,3)] Cons.IH [OF 2 _ Cons.prems(3)]
  show ?case by blast
qed

lemma foldE_rewardStep_sets:
  assumes "foldE (rewardStep prs) rs gs = Inr rs'"
    and "f \<in> set gs"
    and "truthy (js_get prs f) \<and> isValidData (js_get prs f)"
    and "f \<noteq> ''length''"
  shows "truthy (js_get rs' f) \<and> isValidData (js_get rs' f)"
  using assms
proof (induction gs arbitrary: rs)
  case Nil
  then show ?case by simp
next
  case (Cons g gs)
  from Cons.prems(1) obtain rs1 where
    1: "rewardStep prs rs g = Inr rs1" and 2: "foldE (rewardStep prs) rs1 gs = Inr rs'"
    by (auto split: sum.splits)
  show ?case
  proof (cases "f = g")
    case True
    with 1 have "rewardStep prs rs f = Inr rs1" by simp
    from foldE_rewardStep_keeps [OF 2 rewardStep_sets [OF this Cons.prems(3,4)] Cons.prems(4)]
    show ?thesis .
  next
    case False
    with Cons.prems(2) have "f \<in> set gs" by simp
    from Cons.IH [OF 2 this Cons.prems(3,4)] show ?thesis .
  qed
qed

lemma emptyArray_JArr [simp]: "emptyArray (JArr xs ps) = (xs = [])"
  by (cases xs) simp_all

lemma rewardStep_emptyArray:
  assumes "rewardStep prs rs g = Inr rs1"
  shows "emptyArray rs1 = emptyArray rs"
proof (cases "rs1 = rs")
  case True
  then show ?thesis by simp
next
  case False
  with assms have s: "js_set (if \<not> truthy rs then JObj [] else rs) g (js_get prs g) = Inr rs1"
    by (auto simp: rewardStep_def split: if_splits)
  show ?thesis
  proof (cases "truthy rs")
    case True
    with s show ?thesis by (cases rs; cases rs1) auto
  next
    case False
    with s show ?thesis by (cases rs) auto
  qed
qed

lemma foldE_rewardStep_emptyArray:
  "foldE (rewardStep prs) rs gs = Inr rs' \<Longrightarrow> emptyArray rs' = emptyArray rs"
proof (induction gs arbitrary: rs)
  case Nil
  then show ?case by simp
next
  case (Cons g gs)
  from Cons.prems obtain rs1 where
    1: "rewardStep prs rs g = Inr rs1" and 2: "foldE (rewardStep prs) rs1 gs = Inr rs'"
    by (auto split: sum.splits)
  from rewardStep_emptyArray [OF 1] Cons.IH [OF 2] show ?case by simp
qed

lemma valid_sub_valid:
  assumes "isValidData (js_get v f)" and "f \<noteq> ''length''" and "\<not> emptyArray v"
  shows "isValidData v \<and> typeof v = TObject"
proof (cases v)
  case (JArr xs ps)
  with assms(3) show ?thesis by (cases xs) (simp_all add: isValidData_def)
next
  case (JObj ps)
  with assms(1) show ?thesis by (cases ps) (simp_all add: isValidData_def getField_def)
qed (use assms in simp_all)

lemma derivClosing_keeps:
  assumes "derivClosing rt (validReward m) = Inr rs"
    and "isValidData m" and "typeof m = TObject"
    and "f \<in> set rewardFields"
    and "isValidData (js_get m f)"
  shows "js_get rs f = js_get m f \<and> truthy rs"
  using assms
  by (auto simp: derivClosing_validReward rewardFields_def orNull_valid rewardObject_def
      getField_def split: if_splits sum.splits)

lemma reward_fix:
  assumes m: "rewardVal prs x = Inr m"
    and rs: "derivClosing rt (validReward m) = Inr rs"
    and x: "\<not> emptyArray x"
  shows "rewardVal prs rs = Inr rs"
proof (cases "truthy prs")
  case False
  then show ?thesis by (simp add: rewardVal_def)
next
  case True
  with m have fm: "foldE (rewardStep prs) x rewardFields = Inr m"
    by (simp add: rewardVal_def)
  have "rewardStep prs rs f = Inr rs" if f: "f \<in> set rewardFields" for f
  proof (cases "truthy (js_get prs f) \<and> isValidData (js_get prs f)")
    case False
    then show ?thesis by (rule rewardStep_skip)
  next
    case p: True
    from f have nl: "f \<noteq> ''length''" by (auto simp: rewardFields_def)
    from foldE_rewardStep_sets [OF fm f p nl]
    have tv: "truthy (js_get m f) \<and> isValidData (js_get m f)" .
    from foldE_rewardStep_emptyArray [OF fm] x have "\<not> emptyArray m" by simp
    with tv nl have vm: "isValidData m \<and> typeof m = TObject"
      using valid_sub_valid [of m f] by blast
    from derivClosing_keeps [OF rs _ _ f] vm tv
    have "js_get rs f = js_get m f \<and> truthy rs" by simp
    with tv show ?thesis by (simp add: rewardStep_def)
  qed
  then have "foldE (rewardStep prs) rs rewardFields = Inr rs" by (rule foldE_const)
  with True show ?thesis by (simp add: rewardVal_def)
qed

lemma mergedField_simps:
  "mergedField rt l p ''transactions'' =
     txVal rt (getField l ''transactions'') (getField p ''transactions'')"
  "mergedField rt l p ''reward_points_summary'' =
     rewardVal (getField p ''reward_points_summary'') (getField l ''reward_points_summary'')"
  "mergedField rt l p ''customer_name'' =
     Inr (highVal (getField l ''customer_name'') (getField p ''customer_name''))"
  "mergedField rt l p ''card_number'' =
     Inr (highVal (getField l ''card_number'') (getField p ''card_number''))"
  "mergedField rt l p ''bank_name'' =
     Inr (highVal (getField l ''bank_name'') (getField p ''bank_name''))"
  "mergedField rt l p ''total_amount_due'' =
     Inr (fillVal (getField l ''total_amount_due'') (getField p ''total_amount_due''))"
  "mergedField rt l p ''minimum_amount_due'' =
     Inr (fillVal (getField l ''minimum_amount_due'') (getField p ''minimum_amount_due''))"
  "mergedField rt l p ''credit_limit'' =
     Inr (fillVal (getField l ''credit_limit'') (getField p ''credit_limit''))"
  "mergedField rt l p ''available_credit_limit'' =
     Inr (fillVal (getField l ''available_credit_limit'') (getField p ''available_credit_limit''))"
  "mergedField rt l p ''statement_date'' =
     Inr (fillVal (getField l ''statement_date'') (getField p ''statement_date''))"
  "mergedField rt l p ''payment_due_date'' =
     Inr (fillVal (getField l ''payment_due_date'') (getField p ''payment_due_date''))"
  by (simp_all add: mergedField_def financialFields_def dateFields_def)

lemma reconcile_InrD:
  assumes "reconcile rt l p = Inr r"
  obtains m where "robustDataMerging rt l p = Inr m" "finalValidationAndCalculation rt m = Inr r"
  using assms by (auto simp: reconcile_def split: sum.splits)

lemmas reconcile_eval = reconcile_def merge_eval finalize_eval

















lemma noJsonRecovery_simps [simp]:
  "codeBlockMatch noJsonRecovery s = None" "jsonMatch noJsonRecovery s = None"
  by (simp_all add: noJsonRecovery_def)

section \<open>The claims\<close>

text \<open>
  Claim C7. The validator is false for \<^verbatim>\<open>null\<close> and \<^verbatim>\<open>undefined\<close>, for NaN, for an
  empty list, for an object with no key and for a string that lowers to one of
  \<^verbatim>\<open>"null", "na", "n/a", "", "undefined"\<close>; it is true for every other value, the number
  0 among them.
\<close>

theorem isValidData_rules:
  "isValidData (JNum (Fin 0)) \<and>
   isValidData v =
     (\<not> (v = JNull \<or> v = JUndefined \<or> v = JNum NaN \<or> (\<exists>ps. v = JArr [] ps) \<or> v = JObj [] \<or>
         (\<exists>s. v = JStr s \<and> toLowerCase s \<in> set [''null'', ''na'', ''n/a'', '''', ''undefined''])))"
proof (cases v)
  case (JNum n)
  then show ?thesis by (cases n) (simp_all add: isValidData_def)
next
  case (JArr xs ps)
  then show ?thesis by (cases xs) (simp_all add: isValidData_def)
next
  case (JObj ps)
  then show ?thesis by (cases ps) (simp_all add: isValidData_def)
qed (simp_all add: isValidData_def sentinelStrings_def)







text \<open>
  Claim C8. Finalization returns a record whenever no operand of a derivation is an object or
  a list. A record it returns has the eleven keys of the data model in their order, none of
  them \<^verbatim>\<open>undefined\<close>; its transactions are never \<^verbatim>\<open>null\<close>, and they are a list
  whenever the transactions of the merged record are a list or unusable; its reward summary
  has the three sub-keys, none \<^verbatim>\<open>undefined\<close>, whenever the reward summary of the merged
  record is an object, a list or unusable.
\<close>

theorem finalize_key_set:
  "(isPrimitive (getField data ''credit_limit'') \<and>
    isPrimitive (getField data ''total_amount_due'') \<and>
    isPrimitive (js_get (getField data ''reward_points_summary'') ''opening_balance'') \<and>
    isPrimitive (js_get (getField data ''reward_points_summary'') ''earned'') \<longrightarrow>
      (\<exists>r. finalValidationAndCalculation rt data = Inr r)) \<and>
   (\<forall>r. finalValidationAndCalculation rt data = Inr r \<longrightarrow>
      map fst r =
        [''customer_name'', ''statement_date'', ''payment_due_date'', ''total_amount_due'',
         ''minimum_amount_due'', ''credit_limit'', ''available_credit_limit'', ''card_number'',
         ''transactions'', ''reward_points_summary'', ''bank_name''] \<and>
      (\<forall>f \<in> set (map fst r). getField r f \<noteq> JUndefined) \<and>
      getField r ''transactions'' \<noteq> JNull \<and>
      (\<not> isValidData (getField data ''transactions'') \<or> isArray (getField data ''transactions'') \<longrightarrow>
         isArray (getField r ''transactions'')) \<and>
      (\<not> isValidData (getField data ''reward_points_summary'') \<or>
       typeof (getField data ''reward_points_summary'') = TObject \<longrightarrow>
         (\<exists>a b c. getField r ''reward_points_summary'' =
              JObj [(''opening_balance'', a), (''earned'', b), (''closing_balance'', c)] \<and>
            a \<noteq> JUndefined \<and> b \<noteq> JUndefined \<and> c \<noteq> JUndefined)))"
proof (intro conjI allI impI)
  assume "isPrimitive (getField data ''credit_limit'') \<and>
    isPrimitive (getField data ''total_amount_due'') \<and>
    isPrimitive (js_get (getField data ''reward_points_summary'') ''opening_balance'') \<and>
    isPrimitive (js_get (getField data ''reward_points_summary'') ''earned'')"
  then show "\<exists>r. finalValidationAndCalculation rt data = Inr r"
    by (simp add: finalize_returns)
next
  fix r
  assume fin: "finalValidationAndCalculation rt data = Inr r"
  then obtain av rs mn where
    av: "derivAvail rt (validScalar (getField data ''credit_limit''))
       (validScalar (getField data ''total_amount_due''))
       (validScalar (getField data ''available_credit_limit'')) = Inr av"
    and rs: "derivClosing rt (validReward (getField data ''reward_points_summary'')) = Inr rs"
    and mn: "derivMinimum rt (validScalar (getField data ''total_amount_due''))
       (validScalar (getField data ''minimum_amount_due'')) = Inr mn"
    and r: "r = mkRecord
           (validScalar (getField data ''customer_name''))
           (validScalar (getField data ''statement_date''))
           (validScalar (getField data ''payment_due_date''))
           (validScalar (getField data ''total_amount_due''))
           mn
           (validScalar (getField data ''credit_limit''))
           av
           (validScalar (getField data ''card_number''))
           (validTransactions (getField data ''transactions''))
           rs
           (validScalar (getField data ''bank_name''))"
    by (rule finalize_InrD)
  show keys: "map fst r =
        [''customer_name'', ''statement_date'', ''payment_due_date'', ''total_amount_due'',
         ''minimum_amount_due'', ''credit_limit'', ''available_credit_limit'', ''card_number'',
         ''transactions'', ''reward_points_summary'', ''bank_name'']"
    by (simp add: r mkRecord_def)
  have shape: "(isValidData (getField data ''reward_points_summary'') \<and>
         typeof (getField data ''reward_points_summary'') \<noteq> TObject \<and>
         rs = getField data ''reward_points_summary'') \<or>
        (\<exists>a b c. rs = rewardObject a b c \<and> a \<noteq> JUndefined \<and> b \<noteq> JUndefined \<and> c \<noteq> JUndefined)"
    using rs
    by (auto simp: derivClosing_validReward orNull_defined rewardObject_def
        dest: js_add_defined split: if_splits sum.splits)
  have rsd: "rs \<noteq> JUndefined"
    using shape by (auto simp: rewardObject_def)
  have txd: "validTransactions (getField data ''transactions'') \<noteq> JUndefined"
    by (auto simp: validTransactions_def)
  show "\<forall>f \<in> set (map fst r). getField r f \<noteq> JUndefined"
    unfolding keys
    using derivAvail_defined [OF av] derivMinimum_defined [OF mn] rsd txd
    by (simp add: r getField_mkRecord validScalar_defined)
  show "getField r ''transactions'' \<noteq> JNull"
    by (auto simp: r getField_mkRecord validTransactions_def)
  show "isArray (getField r ''transactions'')"
    if "\<not> isValidData (getField data ''transactions'') \<or> isArray (getField data ''transactions'')"
    using that by (auto simp: r getField_mkRecord validTransactions_def)
  show "\<exists>a b c. getField r ''reward_points_summary'' =
              JObj [(''opening_balance'', a), (''earned'', b), (''closing_balance'', c)] \<and>
            a \<noteq> JUndefined \<and> b \<noteq> JUndefined \<and> c \<noteq> JUndefined"
    if "\<not> isValidData (getField data ''reward_points_summary'') \<or>
       typeof (getField data ''reward_points_summary'') = TObject"
    using that shape by (auto simp: r getField_mkRecord rewardObject_def)
qed

theorem finalize_key_set_witness:
  "finalValidationAndCalculation noCoercion
     [(''card_number'', JStr ''4281****9388''),
      (''transactions'',
         JArr [JObj [(''date'', JStr ''12/04/2024''), (''description'', JStr ''AMAZON RETAIL''),
                     (''amount'', JNum (Fin 1499))]] [])] =
   Inr [(''customer_name'', JNull),
        (''statement_date'', JNull),
        (''payment_due_date'', JNull),
        (''total_amount_due'', JNull),
        (''minimum_amount_due'', JNull),
        (''credit_limit'', JNull),
        (''available_credit_limit'', JNull),
        (''card_number'', JStr ''4281****9388''),
        (''transactions'',
           JArr [JObj [(''date'', JStr ''12/04/2024''), (''description'', JStr ''AMAZON RETAIL''),
                       (''amount'', JNum (Fin 1499))]] []),
        (''reward_points_summary'',
           JObj [(''opening_balance'', JNull), (''earned'', JNull),
                 (''closing_balance'', JNull)]),
        (''bank_name'', JNull)]"
proof -
  let ?d = "[(''card_number'', JStr ''4281****9388''),
      (''transactions'',
         JArr [JObj [(''date'', JStr ''12/04/2024''), (''description'', JStr ''AMAZON RETAIL''),
                     (''amount'', JNum (Fin 1499))]] [])]"
  have "isPrimitive (getField ?d ''credit_limit'') \<and>
    isPrimitive (getField ?d ''total_amount_due'') \<and>
    isPrimitive (js_get (getField ?d ''reward_points_summary'') ''opening_balance'') \<and>
    isPrimitive (js_get (getField ?d ''reward_points_summary'') ''earned'')"
    by (simp add: getField_def)
  with finalize_key_set [of ?d noCoercion]
  obtain r where r: "finalValidationAndCalculation noCoercion ?d = Inr r" by blast
  then show ?thesis by (simp add: finalize_eval)
qed

text \<open>
  A usable string in the place of the transactions or of the reward summary is kept: the
  finalized record then has no list and no sub-keys there.
\<close>

theorem finalize_keeps_non_list_transactions:
  "finalValidationAndCalculation noCoercion
     [(''transactions'', JStr ''none''), (''reward_points_summary'', JStr ''not available'')] =
   Inr [(''customer_name'', JNull),
        (''statement_date'', JNull),
        (''payment_due_date'', JNull),
        (''total_amount_due'', JNull),
        (''minimum_amount_due'', JNull),
        (''credit_limit'', JNull),
        (''available_credit_limit'', JNull),
        (''card_number'', JNull),
        (''transactions'', JStr ''none''),
        (''reward_points_summary'', JStr ''not available''),
        (''bank_name'', JNull)]"
  by (simp add: finalize_eval)

text \<open>
  Claim C1, at the input where the code departs from it. The record of the language model
  has the usable total due 0 and the pattern record has 500: merge tests the truthiness of the
  merged value before the validator, takes 0 for a missing value and assigns 500.
\<close>

theorem merge_overwrites_usable_zero:
  "robustDataMerging rt [(''total_amount_due'', JNum (Fin 0))]
     [(''total_amount_due'', JNum (Fin 500))] =
   Inr [(''total_amount_due'', JNum (Fin 500))] \<and>
   isValidData (JNum (Fin 0))"
  by (simp add: merge_eval)

text \<open>
  Claim C5. When merge returns and the transactions value of the language model's record is
  not an object with a \<^verbatim>\<open>length\<close> key, the merged transactions are the pattern
  extractor's list if that is a list strictly longer than the value of the language model's
  record, and the value of the language model's record, unchanged, in every other case. The
  length of that value is its number of elements for a list, its number of code units for a
  string, and 0 when it is absent or anything else.
\<close>

theorem merge_transactions:
  assumes "robustDataMerging rt l p = Inr m"
    and "\<forall>ps. getField l ''transactions'' = JObj ps \<longrightarrow> getField ps ''length'' = JUndefined"
  shows "getField m ''transactions'' =
     (if isArray (getField p ''transactions'') \<and>
         lengthOf (getField l ''transactions'') < array_length (getField p ''transactions'')
      then getField p ''transactions'' else getField l ''transactions'')"
proof -
  from merge_InrD [OF assms(1), of "''transactions''"]
  have "txVal rt (getField l ''transactions'') (getField p ''transactions'') =
      Inr (getField m ''transactions'')"
    by (simp add: mergedField_def)
  with txVal_lengthOf [OF assms(2), of rt "getField p ''transactions''"]
  show ?thesis by simp
qed

theorem merge_transactions_witness:
  "robustDataMerging noCoercion
     [(''transactions'', JArr [JStr ''row 1''] [])]
     [(''transactions'', JArr [JStr ''row 1'', JStr ''row 2''] [])] =
   Inr [(''transactions'', JArr [JStr ''row 1'', JStr ''row 2''] [])] \<and>
   robustDataMerging noCoercion
     [(''transactions'', JArr [JStr ''row 1'', JStr ''row 2''] [])]
     [(''transactions'', JArr [JStr ''row a'', JStr ''row b''] [])] =
   Inr [(''transactions'', JArr [JStr ''row 1'', JStr ''row 2''] [])]"
proof -
  let ?l = "[(''transactions'', JArr [JStr ''row 1''] [])]"
  let ?p = "[(''transactions'', JArr [JStr ''row 1'', JStr ''row 2''] [])]"
  have h: "robustDataMerging noCoercion ?l ?p = Inr ?p"
    by (simp add: merge_eval)
  have n: "\<forall>ps. getField ?l ''transactions'' = JObj ps \<longrightarrow> getField ps ''length'' = JUndefined"
    by (simp add: getField_def)
  from merge_transactions [OF h n] h show ?thesis
    by (simp add: merge_eval)
qed

text \<open>
  A string counts by its length, not as 0: the four code units of \<^verbatim>\<open>"none"\<close> keep a
  pattern list of one row out.
\<close>

theorem merge_keeps_longer_string:
  "robustDataMerging noCoercion
     [(''transactions'', JStr ''none'')]
     [(''transactions'', JArr [JStr ''row 1''] [])] =
   Inr [(''transactions'', JStr ''none'')] \<and>
   \<not> isArray (JStr ''none'') \<and> (0 :: nat) < length [JStr ''row 1'']"
  by (simp add: merge_eval)

text \<open>
  Claim C10. A pattern value equal to the number 0 is never assigned by merge: when merge
  returns, every financial and date field whose pattern value is 0 has the value of the
  language model's record, and so has every reward sub-field whose pattern value is 0,
  whether or not the value of the language model's record is usable.
\<close>

theorem merge_skips_pattern_zero:
  assumes "robustDataMerging rt l p = Inr m"
  shows "(\<forall>f \<in> set (financialFields @ dateFields).
            getField p f = JNum (Fin 0) \<longrightarrow> getField m f = getField l f) \<and>
         (\<forall>f \<in> set rewardFields.
            js_get (getField p ''reward_points_summary'') f = JNum (Fin 0) \<longrightarrow>
            js_get (getField m ''reward_points_summary'') f =
              js_get (getField l ''reward_points_summary'') f)"
proof (intro conjI ballI impI)
  fix f
  assume f: "f \<in> set (financialFields @ dateFields)" and z: "getField p f = JNum (Fin 0)"
  from f have "mergedField rt l p f = Inr (fillVal (getField l f) (getField p f))"
    by (auto simp: mergedField_def financialFields_def dateFields_def)
  with merge_InrD [OF assms, of f] z show "getField m f = getField l f"
    by (simp add: fillVal_falsy)
next
  fix f
  assume f: "f \<in> set rewardFields"
    and z: "js_get (getField p ''reward_points_summary'') f = JNum (Fin 0)"
  from f have nl: "f \<noteq> ''length''" by (auto simp: rewardFields_def)
  from merge_InrD [OF assms, of "''reward_points_summary''"]
  have rv: "rewardVal (getField p ''reward_points_summary'') (getField l ''reward_points_summary'') =
      Inr (getField m ''reward_points_summary'')"
    by (simp add: mergedField_def)
  show "js_get (getField m ''reward_points_summary'') f =
      js_get (getField l ''reward_points_summary'') f"
  proof (cases "truthy (getField p ''reward_points_summary'')")
    case True
    with rv have "foldE (rewardStep (getField p ''reward_points_summary''))
        (getField l ''reward_points_summary'') rewardFields =
          Inr (getField m ''reward_points_summary'')"
      by (simp add: rewardVal_def)
    then show ?thesis using nl
      by (rule foldE_rewardStep_keep) (simp add: z)
  next
    case False
    with rv show ?thesis by (simp add: rewardVal_def)
  qed
qed

theorem merge_skips_pattern_zero_witness:
  "robustDataMerging noCoercion
     [(''customer_name'', JStr ''John Doe'')]
     [(''total_amount_due'', JNum (Fin 0)), (''credit_limit'', JNum (Fin 50000)),
      (''reward_points_summary'',
         JObj [(''opening_balance'', JNum (Fin 0)), (''earned'', JNum (Fin 50)),
               (''closing_balance'', JNum (Fin 50))])] =
   Inr [(''customer_name'', JStr ''John Doe''), (''credit_limit'', JNum (Fin 50000)),
        (''reward_points_summary'',
           JObj [(''earned'', JNum (Fin 50)), (''closing_balance'', JNum (Fin 50))])] \<and>
   isValidData (JNum (Fin 0))"
proof -
  let ?l = "[(''customer_name'', JStr ''John Doe'')]"
  let ?p = "[(''total_amount_due'', JNum (Fin 0)), (''credit_limit'', JNum (Fin 50000)),
      (''reward_points_summary'',
         JObj [(''opening_balance'', JNum (Fin 0)), (''earned'', JNum (Fin 50)),
               (''closing_balance'', JNum (Fin 50))])]"
  have h: "robustDataMerging noCoercion ?l ?p =
   Inr [(''customer_name'', JStr ''John Doe''), (''credit_limit'', JNum (Fin 50000)),
        (''reward_points_summary'',
           JObj [(''earned'', JNum (Fin 50)), (''closing_balance'', JNum (Fin 50))])]"
    by (simp add: merge_eval)
  from merge_skips_pattern_zero [OF h] h show ?thesis
    by (simp add: isValidData_def)
qed

text \<open>
  Claim C4. Merge followed by finalization is idempotent on every pair of records on which it
  returns, provided the transactions value of the language model's record is usable or is not
  a string, and its reward summary is not an empty list: merging the finalized record with the
  same pattern record and finalizing again returns the same record.
\<close>

theorem reconcile_idempotent:
  assumes rec: "reconcile rt l p = Inr r"
    and htx: "isValidData (getField l ''transactions'') \<or> \<not> isString (getField l ''transactions'')"
    and hrs: "\<not> emptyArray (getField l ''reward_points_summary'')"
  shows "reconcile rt r p = Inr r"
proof -
  from rec obtain m where mrg: "robustDataMerging rt l p = Inr m"
    and fin: "finalValidationAndCalculation rt m = Inr r"
    by (rule reconcile_InrD)
  from fin obtain av rs mn where
    av: "derivAvail rt (validScalar (getField m ''credit_limit''))
       (validScalar (getField m ''total_amount_due''))
       (validScalar (getField m ''available_credit_limit'')) = Inr av"
    and rs: "derivClosing rt (validReward (getField m ''reward_points_summary'')) = Inr rs"
    and mn: "derivMinimum rt (validScalar (getField m ''total_amount_due''))
       (validScalar (getField m ''minimum_amount_due'')) = Inr mn"
    and r: "r = mkRecord
           (validScalar (getField m ''customer_name''))
           (validScalar (getField m ''statement_date''))
           (validScalar (getField m ''payment_due_date''))
           (validScalar (getField m ''total_amount_due''))
           mn
           (validScalar (getField m ''credit_limit''))
           av
           (validScalar (getField m ''card_number''))
           (validTransactions (getField m ''transactions''))
           rs
           (validScalar (getField m ''bank_name''))"
    by (rule finalize_InrD)
  note mf = merge_InrD [OF mrg]
  have m_cn: "getField m ''customer_name'' =
      highVal (getField l ''customer_name'') (getField p ''customer_name'')"
    using mf [of "''customer_name''"] by (simp add: mergedField_simps)
  have m_card: "getField m ''card_number'' =
      highVal (getField l ''card_number'') (getField p ''card_number'')"
    using mf [of "''card_number''"] by (simp add: mergedField_simps)
  have m_bank: "getField m ''bank_name'' =
      highVal (getField l ''bank_name'') (getField p ''bank_name'')"
    using mf [of "''bank_name''"] by (simp add: mergedField_simps)
  have m_tad: "getField m ''total_amount_due'' =
      fillVal (getField l ''total_amount_due'') (getField p ''total_amount_due'')"
    using mf [of "''total_amount_due''"] by (simp add: mergedField_simps)
  have m_min: "getField m ''minimum_amount_due'' =
      fillVal (getField l ''minimum_amount_due'') (getField p ''minimum_amount_due'')"
    using mf [of "''minimum_amount_due''"] by (simp add: mergedField_simps)
  have m_cl: "getField m ''credit_limit'' =
      fillVal (getField l ''credit_limit'') (getField p ''credit_limit'')"
    using mf [of "''credit_limit''"] by (simp add: mergedField_simps)
  have m_av: "getField m ''available_credit_limit'' =
      fillVal (getField l ''available_credit_limit'') (getField p ''available_credit_limit'')"
    using mf [of "''available_credit_limit''"] by (simp add: mergedField_simps)
  have m_sd: "getField m ''statement_date'' =
      fillVal (getField l ''statement_date'') (getField p ''statement_date'')"
    using mf [of "''statement_date''"] by (simp add: mergedField_simps)
  have m_pd: "getField m ''payment_due_date'' =
      fillVal (getField l ''payment_due_date'') (getField p ''payment_due_date'')"
    using mf [of "''payment_due_date''"] by (simp add: mergedField_simps)
  have m_tx: "txVal rt (getField l ''transactions'') (getField p ''transactions'') =
      Inr (getField m ''transactions'')"
    using mf [of "''transactions''"] by (simp add: mergedField_simps)
  have m_rs: "rewardVal (getField p ''reward_points_summary'')
      (getField l ''reward_points_summary'') = Inr (getField m ''reward_points_summary'')"
    using mf [of "''reward_points_summary''"] by (simp add: mergedField_simps)
  have f_tx: "mergedField rt r p ''transactions'' = Inr (getField r ''transactions'')"
    using tx_fix [OF m_tx htx] by (simp add: mergedField_simps r getField_mkRecord)
  have f_rs: "mergedField rt r p ''reward_points_summary'' =
      Inr (getField r ''reward_points_summary'')"
    using reward_fix [OF m_rs rs hrs] by (simp add: mergedField_simps r getField_mkRecord)
  have f_av: "fillVal av (getField p ''available_credit_limit'') = av"
    using av unfolding m_av by (rule derivAvail_fill_fix)
  have f_mn: "fillVal mn (getField p ''minimum_amount_due'') = mn"
    using mn unfolding m_min by (rule derivMinimum_fill_fix)
  have f_cn: "mergedField rt r p ''customer_name'' = Inr (getField r ''customer_name'')"
    by (simp add: mergedField_simps r getField_mkRecord m_cn high_fix)
  have f_sd: "mergedField rt r p ''statement_date'' = Inr (getField r ''statement_date'')"
    by (simp add: mergedField_simps r getField_mkRecord m_sd fill_fix)
  have f_pd: "mergedField rt r p ''payment_due_date'' = Inr (getField r ''payment_due_date'')"
    by (simp add: mergedField_simps r getField_mkRecord m_pd fill_fix)
  have f_tad: "mergedField rt r p ''total_amount_due'' = Inr (getField r ''total_amount_due'')"
    by (simp add: mergedField_simps r getField_mkRecord m_tad fill_fix)
  have f_min: "mergedField rt r p ''minimum_amount_due'' =
      Inr (getField r ''minimum_amount_due'')"
    by (simp add: mergedField_simps r getField_mkRecord f_mn)
  have f_cl: "mergedField rt r p ''credit_limit'' = Inr (getField r ''credit_limit'')"
    by (simp add: mergedField_simps r getField_mkRecord m_cl fill_fix)
  have f_avl: "mergedField rt r p ''available_credit_limit'' =
      Inr (getField r ''available_credit_limit'')"
    by (simp add: mergedField_simps r getField_mkRecord f_av)
  have f_card: "mergedField rt r p ''card_number'' = Inr (getField r ''card_number'')"
    by (simp add: mergedField_simps r getField_mkRecord m_card high_fix)
  have f_bank: "mergedField rt r p ''bank_name'' = Inr (getField r ''bank_name'')"
    by (simp add: mergedField_simps r getField_mkRecord m_bank high_fix)
  have "\<forall>k \<in> set (map fst createCompleteFallbackData). mergedField rt r p k = Inr (getField r k)"
    unfolding createCompleteFallbackData_def
    by (simp add: f_cn f_sd f_pd f_tad f_min f_cl f_avl f_card f_tx f_rs f_bank)
  then have fixed: "mergedField rt r p k = Inr (getField r k)"
    if "k \<in> set (map fst createCompleteFallbackData)" for k
    using that by blast
  from merge_returns [OF f_tx f_rs] obtain m' where m': "robustDataMerging rt r p = Inr m'"
    by blast
  have "getField m' k = getField r k" if "k \<in> set (map fst createCompleteFallbackData)" for k
    using merge_InrD [OF m', of k] fixed [OF that] by simp
  then have "finalValidationAndCalculation rt m' = finalValidationAndCalculation rt r"
    by (rule finalize_cong)
  also have "\<dots> = Inr r" using fin by (rule finalize_idem)
  finally show ?thesis using m' by (simp add: reconcile_def)
qed

theorem reconcile_idempotent_witness:
  "reconcile noCoercion
     [(''customer_name'', JStr ''J. Doe''), (''total_amount_due'', JNum (Fin 12000)),
      (''transactions'', JArr [] [])]
     [(''customer_name'', JStr ''John Doe''), (''credit_limit'', JNum (Fin 50000)),
      (''transactions'', JArr [JStr ''row 1''] [])] =
   Inr [(''customer_name'', JStr ''John Doe''),
        (''statement_date'', JNull),
        (''payment_due_date'', JNull),
        (''total_amount_due'', JNum (Fin 12000)),
        (''minimum_amount_due'', JNum (Fin 600)),
        (''credit_limit'', JNum (Fin 50000)),
        (''available_credit_limit'', JNum (Fin 38000)),
        (''card_number'', JNull),
        (''transactions'', JArr [JStr ''row 1''] []),
        (''reward_points_summary'',
           JObj [(''opening_balance'', JNull), (''earned'', JNull),
                 (''closing_balance'', JNull)]),
        (''bank_name'', JNull)] \<and>
   reconcile noCoercion
     [(''customer_name'', JStr ''John Doe''),
        (''statement_date'', JNull),
        (''payment_due_date'', JNull),
        (''total_amount_due'', JNum (Fin 12000)),
        (''minimum_amount_due'', JNum (Fin 600)),
        (''credit_limit'', JNum (Fin 50000)),
        (''available_credit_limit'', JNum (Fin 38000)),
        (''card_number'', JNull),
        (''transactions'', JArr [JStr ''row 1''] []),
        (''reward_points_summary'',
           JObj [(''opening_balance'', JNull), (''earned'', JNull),
                 (''closing_balance'', JNull)]),
        (''bank_name'', JNull)]
     [(''customer_name'', JStr ''John Doe''), (''credit_limit'', JNum (Fin 50000)),
      (''transactions'', JArr [JStr ''row 1''] [])] =
   Inr [(''customer_name'', JStr ''John Doe''),
        (''statement_date'', JNull),
        (''payment_due_date'', JNull),
        (''total_amount_due'', JNum (Fin 12000)),
        (''minimum_amount_due'', JNum (Fin 600)),
        (''credit_limit'', JNum (Fin 50000)),
        (''available_credit_limit'', JNum (Fin 38000)),
        (''card_number'', JNull),
        (''transactions'', JArr [JStr ''row 1''] []),
        (''reward_points_summary'',
           JObj [(''opening_balance'', JNull), (''earned'', JNull),
                 (''closing_balance'', JNull)]),
        (''bank_name'', JNull)]"
proof -
  let ?l = "[(''customer_name'', JStr ''J. Doe''), (''total_amount_due'', JNum (Fin 12000)),
      (''transactions'', JArr [] [])]"
  let ?p = "[(''customer_name'', JStr ''John Doe''), (''credit_limit'', JNum (Fin 50000)),
      (''transactions'', JArr [JStr ''row 1''] [])]"
  let ?r = "[(''customer_name'', JStr ''John Doe''),
        (''statement_date'', JNull),
        (''payment_due_date'', JNull),
        (''total_amount_due'', JNum (Fin 12000)),
        (''minimum_amount_due'', JNum (Fin 600)),
        (''credit_limit'', JNum (Fin 50000)),
        (''available_credit_limit'', JNum (Fin 38000)),
        (''card_number'', JNull),
        (''transactions'', JArr [JStr ''row 1''] []),
        (''reward_points_summary'',
           JObj [(''opening_balance'', JNull), (''earned'', JNull),
                 (''closing_balance'', JNull)]),
        (''bank_name'', JNull)]"
  have h: "reconcile noCoercion ?l ?p = Inr ?r"
    by (simp add: reconcile_eval)
  have t: "isValidData (getField ?l ''transactions'') \<or> \<not> isString (getField ?l ''transactions'')"
    by (simp add: getField_def)
  have e: "\<not> emptyArray (getField ?l ''reward_points_summary'')"
    by (simp add: getField_def)
  from reconcile_idempotent [OF h t e] h show ?thesis by simp
qed

text \<open>
  The transactions string \<^verbatim>\<open>"null"\<close> of the language model's record has four code
  units and keeps the one pattern row out in the first pass; finalization then replaces it by
  the empty list, and the second pass lets the pattern row in.
\<close>

theorem reconcile_not_idempotent:
  "reconcile noCoercion
     [(''transactions'', JStr ''null'')] [(''transactions'', JArr [JStr ''row 1''] [])] =
   Inr [(''customer_name'', JNull),
        (''statement_date'', JNull),
        (''payment_due_date'', JNull),
        (''total_amount_due'', JNull),
        (''minimum_amount_due'', JNull),
        (''credit_limit'', JNull),
        (''available_credit_limit'', JNull),
        (''card_number'', JNull),
        (''transactions'', JArr [] []),
        (''reward_points_summary'',
           JObj [(''opening_balance'', JNull), (''earned'', JNull),
                 (''closing_balance'', JNull)]),
        (''bank_name'', JNull)] \<and>
   reconcile noCoercion
     [(''customer_name'', JNull),
        (''statement_date'', JNull),
        (''payment_due_date'', JNull),
        (''total_amount_due'', JNull),
        (''minimum_amount_due'', JNull),
        (''credit_limit'', JNull),
        (''available_credit_limit'', JNull),
        (''card_number'', JNull),
        (''transactions'', JArr [] []),
        (''reward_points_summary'',
           JObj [(''opening_balance'', JNull), (''earned'', JNull),
                 (''closing_balance'', JNull)]),
        (''bank_name'', JNull)]
     [(''transactions'', JArr [JStr ''row 1''] [])] =
   Inr [(''customer_name'', JNull),
        (''statement_date'', JNull),
        (''payment_due_date'', JNull),
        (''total_amount_due'', JNull),
        (''minimum_amount_due'', JNull),
        (''credit_limit'', JNull),
        (''available_credit_limit'', JNull),
        (''card_number'', JNull),
        (''transactions'', JArr [JStr ''row 1''] []),
        (''reward_points_summary'',
           JObj [(''opening_balance'', JNull), (''earned'', JNull),
                 (''closing_balance'', JNull)]),
        (''bank_name'', JNull)]"
  by (simp add: reconcile_eval)



text \<open>
  Claim C9, at the input where the code departs from it. The negative lookahead of the name
  patterns is tested where the captured group ends, and the clean-up removes \<^verbatim>\<open>email\<close>
  at the end of the name only: the word stays inside the name \<^verbatim>\<open>John email Doe\<close>,
  while the name \<^verbatim>\<open>John Doe email\<close> of the specification is reduced to
  \<^verbatim>\<open>John Doe\<close>.
\<close>

theorem name_keeps_inner_email:
  "extractCustomerInfoFromText ''Customer Name: John email Doe'' =
     [(''customer_name'', JStr ''John email Doe''), (''bank_name'', JNull)] \<and>
   extractCustomerInfoFromText ''Customer Name: John Doe email'' =
     [(''customer_name'', JStr ''John Doe''), (''bank_name'', JNull)]"
  by code_simp

end
